theory Spec2Isabelle
  imports Main "HOL-Library.Sublist"
begin

section \<open>Strings\<close>

text \<open>
  A Go \<open>string\<close> is a sequence of bytes, and so is a HOL \<open>string\<close>. The helpers below
  are the pieces of Go's \<open>strings\<close> package that the gateway code calls.
\<close>

definition is_digit :: "char \<Rightarrow> bool" where
  "is_digit c = (let n = (of_char c :: nat) in 48 \<le> n \<and> n \<le> 57)"

definition digit_val :: "char \<Rightarrow> nat" where
  "digit_val c = of_char c - 48"

text \<open>\<open>strings.Cut(s, sep)\<close> for a one-byte separator: the text before the first
  separator and the text after it (empty when there is no separator).\<close>

definition Cut :: "string \<Rightarrow> char \<Rightarrow> string \<times> string" where
  "Cut s sep = (takeWhile (\<lambda>c. c \<noteq> sep) s, drop 1 (dropWhile (\<lambda>c. c \<noteq> sep) s))"

text \<open>\<open>s[strings.Index(s, sub):]\<close> when \<open>strings.Contains(s, sub)\<close>: the suffix of
  \<open>s\<close> that starts at the first occurrence of \<open>sub\<close>, and \<open>None\<close> when there is none.\<close>

fun from_Index :: "string \<Rightarrow> string \<Rightarrow> string option" where
  "from_Index sub [] = (if sub = [] then Some [] else None)"
| "from_Index sub (c # cs) = (if prefix sub (c # cs) then Some (c # cs) else from_Index sub cs)"

section \<open>Errors\<close>

record NMIError =
  Code :: string
  Message :: string
  Details :: string
  Raw :: string

definition ErrInvalidCard :: string where "ErrInvalidCard = ''invalid_card''"
definition ErrInvalidAmount :: string where "ErrInvalidAmount = ''invalid_amount''"
definition ErrInvalidRequest :: string where "ErrInvalidRequest = ''invalid_request''"
definition ErrDuplicateTransaction :: string where "ErrDuplicateTransaction = ''duplicate_transaction''"
definition ErrProcessingError :: string where "ErrProcessingError = ''processing_error''"
definition ErrPartialResponse :: string where "ErrPartialResponse = ''partial_response''"
definition ErrInvalidRefund :: string where "ErrInvalidRefund = ''invalid_refund''"
definition ErrNetworkError :: string where "ErrNetworkError = ''network_error''"
definition ErrAuthenticationFailed :: string where "ErrAuthenticationFailed = ''authentication_failed''"
definition ErrInvalidAction :: string where "ErrInvalidAction = ''invalid_action''"
definition ErrSystemError :: string where "ErrSystemError = ''system_error''"

text \<open>The errors of \<open>net/url\<close> that \<open>url.ParseQuery\<close> can return.\<close>

datatype url_error = EscapeError string | InvalidSemicolon

text \<open>
  A Go \<open>error\<close> value of this package is either a classified \<open>*NMIError\<close>, or an
  unclassified error made by \<open>fmt.Errorf\<close>: of a plain message, or of a message that wraps
  an error of \<open>net/url\<close> (\<open>%w\<close>). \<open>Panic\<close> is not an error value: it stands for
  a run-time panic that ends the call, with its message.
\<close>

datatype go_error = NMI NMIError | Errorf string | ErrorfWrap string url_error | Panic string

definition nil_dereference :: go_error where
  "nil_dereference = Panic ''invalid memory address or nil pointer dereference''"

definition NewNMIError :: "string \<Rightarrow> string \<Rightarrow> string \<Rightarrow> NMIError" where
  "NewNMIError code message rawResponse =
     \<lparr>Code = code, Message = message, Details = [], Raw = rawResponse\<rparr>"

text \<open>The table \<open>codeMap\<close> of \<open>ParseNMIErrorResponse\<close>.\<close>

definition codeMap :: "string \<rightharpoonup> string" where
  "codeMap = [''200'' \<mapsto> ErrInvalidCard, ''201'' \<mapsto> ErrInvalidAmount,
     ''300'' \<mapsto> ErrAuthenticationFailed, ''400'' \<mapsto> ErrProcessingError,
     ''500'' \<mapsto> ErrSystemError, ''600'' \<mapsto> ErrInvalidAction,
     ''601'' \<mapsto> ErrDuplicateTransaction, ''700'' \<mapsto> ErrNetworkError]"

definition ParseNMIErrorResponse :: "string \<Rightarrow> string \<Rightarrow> string \<Rightarrow> NMIError" where
  "ParseNMIErrorResponse responseText responseCode rawResponse =
     (let details = (case from_Index ''REFID:'' responseText of Some d \<Rightarrow> d | None \<Rightarrow> []);
          code = (case codeMap responseCode of Some c \<Rightarrow> c | None \<Rightarrow> ErrProcessingError)
      in \<lparr>Code = code, Message = responseText, Details = details, Raw = rawResponse\<rparr>)"

section \<open>Decoding the gateway's form encoding\<close>

text \<open>
  \<open>url.ParseQuery\<close> of Go's standard library (Go 1.17 and later, where a semicolon is
  an error), as the parser of the gateway's response uses it. \<open>QueryUnescape\<close> turns \<open>%XX\<close> into the byte \<open>XX\<close> and \<open>+\<close> into a space, and
  fails on a \<open>%\<close> that is not followed by two hexadecimal digits; the error carries the
  offending text, at most three bytes.
\<close>

definition ishex :: "char \<Rightarrow> bool" where
  "ishex c = (let n = (of_char c :: nat) in
     (48 \<le> n \<and> n \<le> 57) \<or> (97 \<le> n \<and> n \<le> 102) \<or> (65 \<le> n \<and> n \<le> 70))"

definition unhex :: "char \<Rightarrow> nat" where
  "unhex c = (let n = (of_char c :: nat) in
     if 48 \<le> n \<and> n \<le> 57 then n - 48
     else if 97 \<le> n \<and> n \<le> 102 then n - 97 + 10
     else if 65 \<le> n \<and> n \<le> 70 then n - 65 + 10
     else 0)"

fun QueryUnescape :: "string \<Rightarrow> url_error + string" where
  "QueryUnescape [] = Inr []"
| "QueryUnescape (c # cs) =
     (if c = CHR ''%'' then
        (case cs of
           h1 # h2 # rest \<Rightarrow>
             (if ishex h1 \<and> ishex h2 then
                (case QueryUnescape rest of
                   Inl e \<Rightarrow> Inl e
                 | Inr t \<Rightarrow> Inr (char_of (unhex h1 * 16 + unhex h2) # t))
              else Inl (EscapeError (take 3 (c # cs))))
         | _ \<Rightarrow> Inl (EscapeError (take 3 (c # cs))))
      else
        (case QueryUnescape cs of
           Inl e \<Rightarrow> Inl e
         | Inr t \<Rightarrow> Inr ((if c = CHR ''+'' then CHR '' '' else c) # t)))"

text \<open>\<open>url.Values\<close> is \<open>map[string][]string\<close>; \<open>Get\<close> returns the first value stored
  under the key, and the empty string when there is none.\<close>

type_synonym Values = "string \<rightharpoonup> string list"

definition Get :: "Values \<Rightarrow> string \<Rightarrow> string" where
  "Get v key = (case v key of None \<Rightarrow> [] | Some [] \<Rightarrow> [] | Some (x # _) \<Rightarrow> x)"

definition add_value :: "Values \<Rightarrow> string \<Rightarrow> string \<Rightarrow> Values" where
  "add_value m key val = m(key \<mapsto> (case m key of None \<Rightarrow> [] | Some vs \<Rightarrow> vs) @ [val])"

text \<open>One round of the loop of \<open>parseQuery\<close>, on the piece \<open>key\<close> cut off before the
  next \<open>&\<close>: a piece with a semicolon sets the error (overwriting an earlier one), an
  empty piece is skipped, a piece that does not unescape is dropped and sets the error
  when none is set yet.\<close>

definition parse_pair :: "Values \<times> url_error option \<Rightarrow> string \<Rightarrow> Values \<times> url_error option" where
  "parse_pair st key =
     (let (m, err) = st in
      if CHR '';'' \<in> set key then (m, Some InvalidSemicolon)
      else if key = [] then (m, err)
      else
        (let (k, v) = Cut key CHR ''=''
         in case QueryUnescape k of
              Inl err1 \<Rightarrow> (m, if err = None then Some err1 else err)
            | Inr k' \<Rightarrow>
                (case QueryUnescape v of
                   Inl err1 \<Rightarrow> (m, if err = None then Some err1 else err)
                 | Inr v' \<Rightarrow> (add_value m k' v', err))))"

function parseQuery :: "Values \<times> url_error option \<Rightarrow> string \<Rightarrow> Values \<times> url_error option" where
  "parseQuery st [] = st"
| "parseQuery st (c # cs) =
     (let (key, rest) = Cut (c # cs) CHR ''&'' in parseQuery (parse_pair st key) rest)"
  by pat_completeness auto
termination
proof (relation "measure (\<lambda>(st, q). length q)")
  show "wf (measure (\<lambda>(st, q). length q))" by simp
next
  fix st :: "Values \<times> url_error option" and c cs x key rest
  assume "x = Cut (c # cs) CHR ''&''" and "(key, rest) = x"
  then have "rest = drop 1 (dropWhile (\<lambda>a. a \<noteq> CHR ''&'') (c # cs))"
    by (simp add: Cut_def)
  moreover have "length (dropWhile (\<lambda>a. a \<noteq> CHR ''&'') (c # cs)) \<le> length (c # cs)"
    by (rule length_dropWhile_le)
  ultimately have "length rest < length (c # cs)"
    by (cases "dropWhile (\<lambda>a. a \<noteq> CHR ''&'') (c # cs)") auto
  then show "((parse_pair st key, rest), (st, c # cs)) \<in> measure (\<lambda>(st, q). length q)"
    by simp
qed

definition ParseQuery :: "string \<Rightarrow> Values \<times> url_error option" where
  "ParseQuery query = parseQuery (Map.empty, None) query"

section \<open>The response parser\<close>

record NMIResponse =
  Response :: string
  ResponseText :: string
  AuthCode :: string
  TransactionID :: string
  AVSResponse :: string
  CVVResponse :: string
  OrderID :: string
  Type :: string
  ResponseCode :: string
  Amount :: string
  CustomerVaultID :: string

text \<open>\<open>ParseNMIResponse\<close> returns a pointer to the record (or \<open>nil\<close>) and an error
  (or \<open>nil\<close>).\<close>

definition response_of_values :: "Values \<Rightarrow> NMIResponse" where
  "response_of_values values = \<lparr>
     Response = Get values ''response'',
     ResponseText = Get values ''responsetext'',
     AuthCode = Get values ''authcode'',
     TransactionID = Get values ''transactionid'',
     AVSResponse = Get values ''avsresponse'',
     CVVResponse = Get values ''cvvresponse'',
     OrderID = Get values ''orderid'',
     Type = Get values ''type'',
     ResponseCode = Get values ''response_code'',
     Amount = Get values ''amount'',
     CustomerVaultID = Get values ''customer_vault_id''\<rparr>"

definition ParseNMIResponse :: "string \<Rightarrow> NMIResponse option \<times> go_error option" where
  "ParseNMIResponse rawResponse =
     (case ParseQuery rawResponse of
        (values, Some err) \<Rightarrow> (None, Some (ErrorfWrap ''failed to parse NMI response: '' err))
      | (values, None) \<Rightarrow>
          (let response = response_of_values values
           in if Response response \<noteq> ''1''
              then (Some response,
                    Some (NMI (ParseNMIErrorResponse (ResponseText response)
                                 (ResponseCode response) rawResponse)))
              else (Some response, None)))"

text \<open>\<open>ExtractValue\<close>: one field of a raw response, empty when the text does not decode.\<close>

definition ExtractValue :: "string \<Rightarrow> string \<Rightarrow> string" where
  "ExtractValue rawResponse key =
     (case ParseQuery rawResponse of
        (values, Some err) \<Rightarrow> []
      | (values, None) \<Rightarrow> Get values key)"

section \<open>The classification table of the specification\<close>

text \<open>The table as the specification writes it, with the codes as literal strings; the
  source's \<open>codeMap\<close> with its default is compared with it below.\<close>

definition spec_classification :: "string \<Rightarrow> string" where
  "spec_classification response_code =
     (if response_code = ''200'' then ''invalid_card''
      else if response_code = ''201'' then ''invalid_amount''
      else if response_code = ''300'' then ''authentication_failed''
      else if response_code = ''400'' then ''processing_error''
      else if response_code = ''500'' then ''system_error''
      else if response_code = ''600'' then ''invalid_action''
      else if response_code = ''601'' then ''duplicate_transaction''
      else if response_code = ''700'' then ''network_error''
      else ''processing_error'')"

section \<open>What the validator takes from outside\<close>

text \<open>
  A \<open>float64\<close>. Every finite \<open>float64\<close> is an integer multiple of \<open>2^(-1074)\<close>, the
  smallest subnormal, so \<open>Finite k\<close> stands for the value \<open>k * 2^(-1074)\<close> (both zeros are
  \<open>Finite 0\<close>: they compare equal). The comparisons are Go's: false whenever an operand
  is NaN.
\<close>

datatype f64 = Finite int | PosInf | NegInf | NaN

definition f64_unit :: nat where
  "f64_unit = 1074"

fun f64_le :: "f64 \<Rightarrow> f64 \<Rightarrow> bool" where
  "f64_le NaN y = False"
| "f64_le x NaN = False"
| "f64_le NegInf y = True"
| "f64_le x PosInf = True"
| "f64_le (Finite a) (Finite b) = (a \<le> b)"
| "f64_le x y = False"

fun f64_gt :: "f64 \<Rightarrow> f64 \<Rightarrow> bool" where
  "f64_gt NaN y = False"
| "f64_gt x NaN = False"
| "f64_gt x PosInf = False"
| "f64_gt PosInf y = True"
| "f64_gt NegInf y = False"
| "f64_gt x NegInf = True"
| "f64_gt (Finite a) (Finite b) = (b < a)"

text \<open>The number of bits of a natural number (\<open>bits.Len\<close>).\<close>

fun bit_length :: "nat \<Rightarrow> nat" where
  "bit_length n = (if n = 0 then 0 else Suc (bit_length (n div 2)))"

declare bit_length.simps [simp del]

text \<open>
  The \<open>float64\<close> nearest to the fraction \<open>a / b\<close> (\<open>b > 0\<close>), ties to the even
  significand, as IEEE 754 rounds and \<open>strconv.ParseFloat\<close> promises. In units of
  \<open>2^(-1074)\<close> the fraction is \<open>x / b\<close>; a value of \<open>bl\<close> bits keeps its top 53 bits, so
  the spacing of the floats around it is \<open>2^s\<close> with \<open>s = bl - 53\<close> (and 1 for the
  subnormals, where the subtraction on \<open>nat\<close> stops at 0); \<open>m\<close> is the nearest multiple,
  and a result of \<open>2^1024\<close> or more is \<open>+Inf\<close>.
\<close>

definition round_f64 :: "nat \<Rightarrow> nat \<Rightarrow> f64" where
  "round_f64 a b =
     (let x = a * 2 ^ f64_unit;
          s = bit_length (x div b) - 53;
          y = b * 2 ^ s;
          q = x div y;
          r = x mod y;
          m = (if 2 * r < y then q
               else if y < 2 * r then q + 1
               else if even q then q else q + 1);
          k = m * 2 ^ s
      in if 2 ^ (1024 + f64_unit) \<le> k then PosInf else Finite (int k))"

definition nat_of_digits :: "string \<Rightarrow> nat" where
  "nat_of_digits ds = foldl (\<lambda>n c. 10 * n + digit_val c) 0 ds"

text \<open>The unsigned fixed-point literals: digits, a point, digits.\<close>

definition decimal_parts :: "string \<Rightarrow> (string \<times> string) option" where
  "decimal_parts s =
     (let ip = takeWhile is_digit s
      in case dropWhile is_digit s of
           [] \<Rightarrow> None
         | dot # fp \<Rightarrow>
             if ip \<noteq> [] \<and> dot = CHR ''.'' \<and> fp \<noteq> [] \<and> list_all is_digit fp
             then Some (ip, fp) else None)"

text \<open>
  The parts of the Go runtime and standard library that the validator reads and that are
  not modelled in full: the clock (\<open>time.Now()\<close>, its year and its month 1 to 12),
  \<open>strings.ToLower\<close> on text that is not ASCII, and \<open>strconv.ParseFloat\<close> on text that is
  not an unsigned fixed-point literal. They are parameters of the model.
\<close>

record runtime =
  now_Year :: nat
  now_Month :: nat
  ToLower_unicode :: "string \<Rightarrow> string"
  ParseFloat_rest :: "string \<Rightarrow> f64"

text \<open>\<open>strconv.ParseFloat(s, 64)\<close>; the callers drop its error and use the value.\<close>

definition ParseFloat :: "runtime \<Rightarrow> string \<Rightarrow> f64" where
  "ParseFloat rt s =
     (case decimal_parts s of
        Some (ip, fp) \<Rightarrow> round_f64 (nat_of_digits (ip @ fp)) (10 ^ length fp)
      | None \<Rightarrow> ParseFloat_rest rt s)"

definition lower_ascii :: "char \<Rightarrow> char" where
  "lower_ascii c = (let n = (of_char c :: nat) in if 65 \<le> n \<and> n \<le> 90 then char_of (n + 32) else c)"

definition ToLower :: "runtime \<Rightarrow> string \<Rightarrow> string" where
  "ToLower rt s =
     (if list_all (\<lambda>c. (of_char c :: nat) < 128) s then map lower_ascii s
      else ToLower_unicode rt s)"

section \<open>Requests\<close>

record PaymentResponse =
  RawResponse :: string
  StatusCode :: int
  Response :: string
  ResponseText :: string
  AuthCode :: string
  TransactionID :: string
  AVSResponse :: string
  CVVResponse :: string
  OrderID :: string
  Type :: string
  ResponseCode :: string
  ErrorMessage :: string
  CustomerVaultID :: string

record RefundResponse =
  RawResponse :: string
  StatusCode :: int
  Response :: string
  ResponseText :: string
  AuthCode :: string
  TransactionID :: string
  Type :: string
  ResponseCode :: string
  Amount :: string
  ErrorMessage :: string

record LookupResponse =
  RawResponse :: string
  StatusCode :: int
  Response :: string
  ResponseText :: string
  TransactionID :: string
  Type :: string
  Amount :: string
  ResponseCode :: string
  ErrorMessage :: string

record TokenizeResponse =
  CustomerVaultID :: string
  Token :: string
  Masked :: string
  CardType :: string
  ExpiryDate :: string
  Success :: bool
  Message :: string

record RefundRequest =
  APIKey :: string
  TransactionID :: string
  Amount :: string

record LookupRequest =
  APIKey :: string
  TransactionID :: string
  Condition :: string
  TransactionType :: string
  ActionType :: string

record BillingInfo =
  FirstName :: string
  LastName :: string
  Address1 :: string
  City :: string
  State :: string
  Zip :: string
  Country :: string
  Email :: string
  Phone :: string

record PaymentRequest =
  APIKey :: string
  Amount :: string
  CreditCard :: string
  ExpDate :: string
  CVV :: string
  Token :: string
  CustomerVaultID :: string
  Type :: string
  OrderID :: string
  CustomerID :: string
  IdempotencyKey :: string
  RecurringPayment :: bool
  PlanID :: string
  Billing :: "BillingInfo option"

section \<open>The validator\<close>

text \<open>The regular expressions of the validator, as matchers on bytes. \<open>\d\<close> is an ASCII
  digit, \<open>\s\<close> is one of tab, newline, form feed, carriage return and space, and \<open>$\<close>
  matches at the end of the text only.\<close>

definition is_space :: "char \<Rightarrow> bool" where
  "is_space c = ((of_char c :: nat) \<in> {9, 10, 12, 13, 32})"

definition is_alpha :: "char \<Rightarrow> bool" where
  "is_alpha c = (let n = (of_char c :: nat) in (97 \<le> n \<and> n \<le> 122) \<or> (65 \<le> n \<and> n \<le> 90))"

text \<open>\<open>^\d+\.\d{2}$\<close>\<close>

definition amountRegex :: "string \<Rightarrow> bool" where
  "amountRegex s =
     (takeWhile is_digit s \<noteq> [] \<and>
      (case dropWhile is_digit s of
         [dot, d1, d2] \<Rightarrow> dot = CHR ''.'' \<and> is_digit d1 \<and> is_digit d2
       | _ \<Rightarrow> False))"

text \<open>\<open>^\d{13,19}$\<close>\<close>

definition cardRegex :: "string \<Rightarrow> bool" where
  "cardRegex s = (list_all is_digit s \<and> 13 \<le> length s \<and> length s \<le> 19)"

text \<open>\<open>^(0[1-9]|1[0-2])\d{2}$\<close>\<close>

definition expRegex :: "string \<Rightarrow> bool" where
  "expRegex s =
     (case s of
        [m1, m2, y1, y2] \<Rightarrow>
          ((m1 = CHR ''0'' \<and> is_digit m2 \<and> m2 \<noteq> CHR ''0'')
           \<or> (m1 = CHR ''1'' \<and> m2 \<in> {CHR ''0'', CHR ''1'', CHR ''2''}))
          \<and> is_digit y1 \<and> is_digit y2
      | _ \<Rightarrow> False)"

text \<open>\<open>^\d{3,4}$\<close>\<close>

definition cvvRegex :: "string \<Rightarrow> bool" where
  "cvvRegex s = (list_all is_digit s \<and> 3 \<le> length s \<and> length s \<le> 4)"

text \<open>\<open>^[a-zA-Z0-9._%+-]+@[a-zA-Z0-9.-]+\.[a-zA-Z]{2,}$\<close>: the local part ends at the
  first \<open>@\<close>, and the last label is the longest run of letters at the end.\<close>

definition is_local_char :: "char \<Rightarrow> bool" where
  "is_local_char c = (is_alpha c \<or> is_digit c \<or> c \<in> set ''._%+-'')"

definition is_domain_char :: "char \<Rightarrow> bool" where
  "is_domain_char c = (is_alpha c \<or> is_digit c \<or> c \<in> set ''.-'')"

definition emailRegex :: "string \<Rightarrow> bool" where
  "emailRegex s =
     (takeWhile is_local_char s \<noteq> [] \<and>
      (case dropWhile is_local_char s of
         [] \<Rightarrow> False
       | at # t \<Rightarrow>
           at = CHR ''@'' \<and> 2 \<le> length (takeWhile is_alpha (rev t)) \<and>
           (case dropWhile is_alpha (rev t) of
              [] \<Rightarrow> False
            | dot # d \<Rightarrow> dot = CHR ''.'' \<and> d \<noteq> [] \<and> list_all is_domain_char d)))"

definition validateAmount :: "runtime \<Rightarrow> string \<Rightarrow> go_error option" where
  "validateAmount rt amount =
     (if \<not> amountRegex amount then
        Some (NMI (NewNMIError ErrInvalidAmount
          ''invalid amount format: must be in dollars.cents format (e.g., 10.99)'' []))
      else
        (let amountFloat = ParseFloat rt amount
         in if f64_le amountFloat (Finite 0) then
              Some (NMI (NewNMIError ErrInvalidAmount ''amount must be greater than zero'' []))
            else None))"

text \<open>The loop of the Luhn check, from the last byte to the first: it is run on the
  reversed number.\<close>

fun luhn_loop :: "string \<Rightarrow> nat \<Rightarrow> bool \<Rightarrow> nat" where
  "luhn_loop [] sum_acc alternate = sum_acc"
| "luhn_loop (c # cs) sum_acc alternate =
     (let n = digit_val c;
          n = (if alternate then (let n = n * 2 in if n > 9 then (n mod 10) + 1 else n) else n)
      in luhn_loop cs (sum_acc + n) (\<not> alternate))"

text \<open>\<open>regexp.MustCompile(`[\s-]`).ReplaceAllString(number, "")\<close>\<close>

definition strip_separators :: "string \<Rightarrow> string" where
  "strip_separators number = filter (\<lambda>c. \<not> (is_space c \<or> c = CHR ''-'')) number"

definition validateCreditCard :: "string \<Rightarrow> go_error option" where
  "validateCreditCard number0 =
     (let number = strip_separators number0
      in if \<not> cardRegex number then
           Some (NMI (NewNMIError ErrInvalidCard ''invalid credit card number length'' []))
         else
           (let checksum = luhn_loop (rev number) 0 False
            in if checksum mod 10 \<noteq> 0 then
                 Some (NMI (NewNMIError ErrInvalidCard
                   ''invalid credit card number (failed Luhn check)'' []))
               else None))"

definition validateExpirationDate :: "runtime \<Rightarrow> string \<Rightarrow> go_error option" where
  "validateExpirationDate rt expDate =
     (if \<not> expRegex expDate then
        Some (NMI (NewNMIError ErrInvalidCard ''invalid expiration date format (must be MMYY)'' []))
      else
        (let month = nat_of_digits (take 2 expDate);
             year = nat_of_digits (drop 2 expDate);
             currentYear = now_Year rt mod 100;
             currentMonth = now_Month rt
         in if year < currentYear \<or> (year = currentYear \<and> month < currentMonth) then
              Some (NMI (NewNMIError ErrInvalidCard ''card has expired'' []))
            else None))"

definition validateCVV :: "string \<Rightarrow> go_error option" where
  "validateCVV cvv =
     (if \<not> cvvRegex cvv then
        Some (NMI (NewNMIError ErrInvalidCard ''invalid CVV (must be 3 or 4 digits)'' []))
      else None)"

definition validTypes :: "string list" where
  "validTypes = [''sale'', ''auth'', ''capture'', ''credit'', ''validate'', ''void'', ''refund'']"

definition validateTransactionType :: "runtime \<Rightarrow> string \<Rightarrow> go_error option" where
  "validateTransactionType rt txType =
     (if ToLower rt txType \<notin> set validTypes then
        Some (NMI (NewNMIError ErrInvalidRequest ''invalid transaction type'' []))
      else None)"

definition validateBillingInfo :: "BillingInfo \<Rightarrow> go_error option" where
  "validateBillingInfo billing =
     (if FirstName billing = [] \<or> LastName billing = [] then
        Some (NMI (NewNMIError ErrInvalidRequest ''first_name and last_name are required'' []))
      else if Address1 billing = [] \<or> City billing = [] \<or> State billing = [] \<or> Zip billing = [] then
        Some (NMI (NewNMIError ErrInvalidRequest ''complete address is required'' []))
      else if Email billing \<noteq> [] \<and> \<not> emailRegex (Email billing) then
        Some (NMI (NewNMIError ErrInvalidRequest ''invalid email format'' []))
      else if Phone billing \<noteq> [] \<and> length (filter is_digit (Phone billing)) < 10 then
        Some (NMI (NewNMIError ErrInvalidRequest ''invalid phone number'' []))
      else None)"

text \<open>The card path of \<open>ValidatePaymentRequest\<close>, taken when no vault id is given.\<close>

definition validate_card_details :: "runtime \<Rightarrow> PaymentRequest \<Rightarrow> go_error option" where
  "validate_card_details rt req =
     (if CreditCard req = [] \<or> ExpDate req = [] \<or> CVV req = [] then
        Some (Errorf ''either customer_vault_id or credit_card, exp_date, and cvv are required'')
      else
        (case validateCreditCard (CreditCard req) of
           Some err \<Rightarrow> Some err
         | None \<Rightarrow>
             (case validateExpirationDate rt (ExpDate req) of
                Some err \<Rightarrow> Some err
              | None \<Rightarrow> validateCVV (CVV req))))"

definition ValidatePaymentRequest :: "runtime \<Rightarrow> PaymentRequest \<Rightarrow> go_error option" where
  "ValidatePaymentRequest rt req =
     (if PaymentRequest.Amount req = [] then Some (Errorf ''amount is required'')
      else
        (case validateAmount rt (PaymentRequest.Amount req) of
           Some err \<Rightarrow> Some err
         | None \<Rightarrow>
             if PaymentRequest.Type req = [] then Some (Errorf ''type is required'')
             else
               (case validateTransactionType rt (PaymentRequest.Type req) of
                  Some err \<Rightarrow> Some err
                | None \<Rightarrow>
                    (case (if PaymentRequest.CustomerVaultID req = [] then validate_card_details rt req
                           else if length (PaymentRequest.CustomerVaultID req) < 8 then
                             Some (Errorf ''customer_vault_id must be at least 8 characters'')
                           else None) of
                       Some err \<Rightarrow> Some err
                     | None \<Rightarrow>
                         (case Billing req of
                            None \<Rightarrow> None
                          | Some billing \<Rightarrow> validateBillingInfo billing)))))"

definition ValidateRefundRequest :: "runtime \<Rightarrow> RefundRequest \<Rightarrow> string \<Rightarrow> go_error option" where
  "ValidateRefundRequest rt req originalAmount =
     (if RefundRequest.TransactionID req = [] then
        Some (NMI (NewNMIError ErrInvalidRequest ''transaction_id is required'' []))
      else if RefundRequest.Amount req \<noteq> [] then
        (if \<not> amountRegex (RefundRequest.Amount req) then
           Some (NMI (NewNMIError ErrInvalidAmount
             ''invalid amount format: must be in dollars.cents format (e.g., 10.99)'' []))
         else
           (let refundAmount = ParseFloat rt (RefundRequest.Amount req)
            in if f64_le refundAmount (Finite 0) then
                 Some (NMI (NewNMIError ErrInvalidRefund ''refund amount must be greater than 0'' []))
               else if originalAmount \<noteq> [] then
                 (let originalAmt = ParseFloat rt originalAmount
                  in if f64_gt refundAmount originalAmt then
                       Some (NMI (NewNMIError ErrInvalidRefund
                         ''refund amount cannot exceed original transaction amount'' []))
                     else None)
               else None))
      else None)"

section \<open>The orchestrator\<close>

text \<open>
  The state that the operations share and change: the idempotency registry
  \<open>transactionCache.processed\<close>, and the network, seen as the list of the forms handed to
  \<open>sendRequest\<close> so far. The gateway is a parameter: what \<open>sendRequest\<close> returns for a
  form, the body of the reply or an error. The calls to the metrics and logging package
  change neither the result nor this state and are left out.
\<close>

record world =
  processed :: "string \<rightharpoonup> bool"
  requests :: "Values list"

type_synonym gateway = "Values \<Rightarrow> go_error + string"

text \<open>\<open>formData.Set(key, value)\<close>\<close>

definition Set_value :: "Values \<Rightarrow> string \<Rightarrow> string \<Rightarrow> Values" where
  "Set_value formData key val = formData(key \<mapsto> [val])"

definition sendRequest :: "gateway \<Rightarrow> Values \<Rightarrow> world \<Rightarrow> (go_error + string) \<times> world" where
  "sendRequest gw formData w = (gw formData, w\<lparr>requests := requests w @ [formData]\<rparr>)"

definition payment_form :: "PaymentRequest \<Rightarrow> Values" where
  "payment_form req =
     (let formData = Map.empty;
          formData = Set_value formData ''security_key'' (PaymentRequest.APIKey req);
          formData = Set_value formData ''amount'' (PaymentRequest.Amount req);
          formData = Set_value formData ''type'' (PaymentRequest.Type req);
          formData = (if PaymentRequest.OrderID req \<noteq> []
                      then Set_value formData ''orderid'' (PaymentRequest.OrderID req)
                      else formData)
      in if PaymentRequest.CustomerVaultID req \<noteq> [] then
           Set_value formData ''customer_vault_id'' (PaymentRequest.CustomerVaultID req)
         else
           (let formData = Set_value formData ''ccnumber'' (CreditCard req);
                formData = Set_value formData ''ccexp'' (ExpDate req)
            in Set_value formData ''cvv'' (CVV req)))"

definition payment_response :: "string \<Rightarrow> NMIResponse \<Rightarrow> PaymentRequest \<Rightarrow> PaymentResponse" where
  "payment_response resp parsedResp req =
     \<lparr>PaymentResponse.RawResponse = resp,
      PaymentResponse.StatusCode = 200,
      PaymentResponse.Response = NMIResponse.Response parsedResp,
      PaymentResponse.ResponseText = NMIResponse.ResponseText parsedResp,
      PaymentResponse.AuthCode = NMIResponse.AuthCode parsedResp,
      PaymentResponse.TransactionID = NMIResponse.TransactionID parsedResp,
      AVSResponse = NMIResponse.AVSResponse parsedResp,
      CVVResponse = NMIResponse.CVVResponse parsedResp,
      OrderID = NMIResponse.OrderID parsedResp,
      PaymentResponse.Type = NMIResponse.Type parsedResp,
      PaymentResponse.ResponseCode = NMIResponse.ResponseCode parsedResp,
      PaymentResponse.ErrorMessage = [],
      PaymentResponse.CustomerVaultID = PaymentRequest.CustomerVaultID req\<rparr>"

definition ProcessPayment ::
  "runtime \<Rightarrow> gateway \<Rightarrow> PaymentRequest \<Rightarrow> world \<Rightarrow> (go_error + PaymentResponse) \<times> world" where
  "ProcessPayment rt gw req w =
     (if IdempotencyKey req \<noteq> [] \<and> processed w (IdempotencyKey req) \<noteq> None then
        (Inl (NMI (NewNMIError ErrDuplicateTransaction ''duplicate transaction detected'' [])), w)
      else
        (case ValidatePaymentRequest rt req of
           Some err \<Rightarrow> (Inl err, w)
         | None \<Rightarrow>
             (case sendRequest gw (payment_form req) w of
                (Inl err, w) \<Rightarrow> (Inl err, w)
              | (Inr resp, w) \<Rightarrow>
                  (case ParseNMIResponse resp of
                     (_, Some err) \<Rightarrow> (Inl err, w)
                   | (None, None) \<Rightarrow> (Inl nil_dereference, w)
                   | (Some parsedResp, None) \<Rightarrow>
                       (let w = (if IdempotencyKey req \<noteq> []
                                 then w\<lparr>processed := (processed w)(IdempotencyKey req \<mapsto> True)\<rparr>
                                 else w)
                        in (Inr (payment_response resp parsedResp req), w))))))"

definition addBillingInfo :: "Values \<Rightarrow> BillingInfo \<Rightarrow> Values" where
  "addBillingInfo formData billing =
     (let formData = Set_value formData ''first_name'' (FirstName billing);
          formData = Set_value formData ''last_name'' (LastName billing);
          formData = Set_value formData ''address1'' (Address1 billing);
          formData = Set_value formData ''city'' (City billing);
          formData = Set_value formData ''state'' (State billing);
          formData = Set_value formData ''zip'' (Zip billing);
          formData = Set_value formData ''country'' (Country billing);
          formData = Set_value formData ''email'' (Email billing)
      in Set_value formData ''phone'' (Phone billing))"

text \<open>\<open>generateUniqueVaultID\<close> reads eight bytes of \<open>crypto/rand\<close> and prints them as a
  decimal number; it panics when the read fails. The argument is that decimal text, or
  \<open>None\<close> for the failed read.\<close>

definition generateUniqueVaultID :: "string option \<Rightarrow> go_error + string" where
  "generateUniqueVaultID rnd =
     (case rnd of
        None \<Rightarrow> Inl (Panic ''failed to generate random number for vault ID'')
      | Some vaultID \<Rightarrow> Inr vaultID)"

definition tokenize_form :: "PaymentRequest \<Rightarrow> string \<Rightarrow> Values" where
  "tokenize_form req vaultID =
     (let formData = Map.empty;
          formData = Set_value formData ''security_key'' (PaymentRequest.APIKey req);
          formData = Set_value formData ''ccnumber'' (CreditCard req);
          formData = Set_value formData ''ccexp'' (ExpDate req);
          formData = Set_value formData ''cvv'' (CVV req);
          formData = Set_value formData ''amount'' ''1.00'';
          formData = Set_value formData ''type'' ''sale'';
          formData = Set_value formData ''customer_vault'' ''add_customer'';
          formData = Set_value formData ''customer_vault_id'' vaultID
      in case Billing req of
           None \<Rightarrow> formData
         | Some billing \<Rightarrow> addBillingInfo formData billing)"

definition tokenize_response ::
  "string \<Rightarrow> string \<Rightarrow> NMIResponse \<Rightarrow> PaymentRequest \<Rightarrow> TokenizeResponse" where
  "tokenize_response vaultID resp parsedResp req =
     \<lparr>TokenizeResponse.CustomerVaultID = vaultID,
      Token = vaultID,
      Masked = ExtractValue resp ''cc_number'',
      CardType = ExtractValue resp ''card_type'',
      ExpiryDate = ExpDate req,
      Success = (NMIResponse.Response parsedResp = ''1''),
      Message = NMIResponse.ResponseText parsedResp\<rparr>"

definition ProcessTokenization ::
  "runtime \<Rightarrow> gateway \<Rightarrow> string option \<Rightarrow> PaymentRequest \<Rightarrow> world
     \<Rightarrow> (go_error + TokenizeResponse) \<times> world" where
  "ProcessTokenization rt gw rnd req w =
     (case ValidatePaymentRequest rt req of
        Some err \<Rightarrow> (Inl err, w)
      | None \<Rightarrow>
          (case generateUniqueVaultID rnd of
             Inl p \<Rightarrow> (Inl p, w)
           | Inr vaultID \<Rightarrow>
               (case sendRequest gw (tokenize_form req vaultID) w of
                  (Inl err, w) \<Rightarrow> (Inl err, w)
                | (Inr resp, w) \<Rightarrow>
                    (case ParseNMIResponse resp of
                       (_, Some err) \<Rightarrow> (Inl err, w)
                     | (None, None) \<Rightarrow> (Inl nil_dereference, w)
                     | (Some parsedResp, None) \<Rightarrow>
                         (Inr (tokenize_response vaultID resp parsedResp req), w)))))"

definition lookup_form :: "LookupRequest \<Rightarrow> Values" where
  "lookup_form req =
     (let formData = Map.empty;
          formData = Set_value formData ''security_key'' (LookupRequest.APIKey req);
          formData = Set_value formData ''transaction_id'' (LookupRequest.TransactionID req);
          formData = Set_value formData ''condition'' ''complete'';
          formData = Set_value formData ''transaction_type'' ''cc''
      in Set_value formData ''action_type'' ''sale'')"

definition lookup_response :: "string \<Rightarrow> NMIResponse \<Rightarrow> LookupResponse" where
  "lookup_response resp parsedResp =
     \<lparr>LookupResponse.RawResponse = resp,
      LookupResponse.StatusCode = 200,
      LookupResponse.Response = NMIResponse.Response parsedResp,
      LookupResponse.ResponseText = NMIResponse.ResponseText parsedResp,
      LookupResponse.TransactionID = NMIResponse.TransactionID parsedResp,
      LookupResponse.Type = NMIResponse.Type parsedResp,
      LookupResponse.Amount = ExtractValue resp ''amount'',
      LookupResponse.ResponseCode = NMIResponse.ResponseCode parsedResp,
      LookupResponse.ErrorMessage = []\<rparr>"

definition LookupTransaction ::
  "gateway \<Rightarrow> LookupRequest \<Rightarrow> world \<Rightarrow> (go_error + LookupResponse) \<times> world" where
  "LookupTransaction gw req w =
     (if LookupRequest.TransactionID req = [] then
        (Inl (NMI (NewNMIError ErrInvalidRequest ''transaction_id is required'' [])), w)
      else
        (case sendRequest gw (lookup_form req) w of
           (Inl err, w) \<Rightarrow> (Inl err, w)
         | (Inr resp, w) \<Rightarrow>
             (case ParseNMIResponse resp of
                (_, Some err) \<Rightarrow> (Inl err, w)
              | (None, None) \<Rightarrow> (Inl nil_dereference, w)
              | (Some parsedResp, None) \<Rightarrow>
                  (Inr (lookup_response resp parsedResp), w))))"

definition refund_form :: "RefundRequest \<Rightarrow> Values" where
  "refund_form req =
     (let formData = Map.empty;
          formData = Set_value formData ''security_key'' (RefundRequest.APIKey req);
          formData = Set_value formData ''type'' ''refund'';
          formData = Set_value formData ''transactionid'' (RefundRequest.TransactionID req)
      in if RefundRequest.Amount req \<noteq> []
         then Set_value formData ''amount'' (RefundRequest.Amount req)
         else formData)"

definition refund_response :: "string \<Rightarrow> NMIResponse \<Rightarrow> RefundRequest \<Rightarrow> RefundResponse" where
  "refund_response resp parsedResp req =
     \<lparr>RefundResponse.RawResponse = resp,
      RefundResponse.StatusCode = 200,
      RefundResponse.Response = NMIResponse.Response parsedResp,
      RefundResponse.ResponseText = NMIResponse.ResponseText parsedResp,
      RefundResponse.AuthCode = NMIResponse.AuthCode parsedResp,
      RefundResponse.TransactionID = NMIResponse.TransactionID parsedResp,
      RefundResponse.Type = NMIResponse.Type parsedResp,
      RefundResponse.ResponseCode = NMIResponse.ResponseCode parsedResp,
      RefundResponse.Amount = RefundRequest.Amount req,
      RefundResponse.ErrorMessage = []\<rparr>"

definition ProcessRefund ::
  "runtime \<Rightarrow> gateway \<Rightarrow> RefundRequest \<Rightarrow> world \<Rightarrow> (go_error + RefundResponse) \<times> world" where
  "ProcessRefund rt gw req w =
     (let lookupReq = \<lparr>LookupRequest.APIKey = RefundRequest.APIKey req,
                        LookupRequest.TransactionID = RefundRequest.TransactionID req,
                        Condition = [], TransactionType = [], ActionType = []\<rparr>
      in case LookupTransaction gw lookupReq w of
           (Inl err, w) \<Rightarrow> (Inl err, w)
         | (Inr lookupResp, w) \<Rightarrow>
             (case ValidateRefundRequest rt req (LookupResponse.Amount lookupResp) of
                Some err \<Rightarrow> (Inl err, w)
              | None \<Rightarrow>
                  (case sendRequest gw (refund_form req) w of
                     (Inl err, w) \<Rightarrow> (Inl err, w)
                   | (Inr resp, w) \<Rightarrow>
                       (case ParseNMIResponse resp of
                          (_, Some err) \<Rightarrow> (Inl err, w)
                        | (None, None) \<Rightarrow> (Inl nil_dereference, w)
                        | (Some parsedResp, None) \<Rightarrow>
                            (Inr (refund_response resp parsedResp req), w)))))"

section \<open>The specification's terms\<close>

text \<open>The value of an amount of the form \<open>digits.dd\<close> in cents: the number that its
  digits spell.\<close>

definition amount_cents :: "string \<Rightarrow> nat" where
  "amount_cents s = nat_of_digits (filter is_digit s)"

text \<open>The Luhn checksum in the specification's words: every second digit, counted from
  the rightmost, is doubled and digit-summed when the double exceeds 9, and the total
  must be divisible by 10. The digit at distance \<open>i\<close> from the right end is doubled
  when \<open>i\<close> is odd.\<close>

definition luhn_digit :: "nat \<Rightarrow> nat \<Rightarrow> nat" where
  "luhn_digit i d =
     (if odd i then (if 2 * d > 9 then (2 * d) div 10 + (2 * d) mod 10 else 2 * d) else d)"

definition spec_luhn :: "string \<Rightarrow> bool" where
  "spec_luhn number =
     (sum_list (map (\<lambda>(i, c). luhn_digit i (digit_val c)) (enumerate 0 (rev number))) mod 10 = 0)"

section \<open>Test data\<close>

text \<open>The valid request of the repository's test, a clock before that card expires, and
  a gateway that approves or declines everything. The test data is ASCII and its amounts
  are fixed-point literals, so the last two fields of the test runtime are never
  consulted on it; they are placeholders, not Go's functions.\<close>

definition test_runtime :: runtime where
  "test_runtime = \<lparr>now_Year = 2025, now_Month = 6,
     ToLower_unicode = (\<lambda>s. s), ParseFloat_rest = (\<lambda>s. Finite 0)\<rparr>"

definition valid_request :: PaymentRequest where
  "valid_request = \<lparr>PaymentRequest.APIKey = [], PaymentRequest.Amount = ''10.99'',
     CreditCard = ''4111111111111111'', ExpDate = ''1225'', CVV = ''123'', Token = [],
     PaymentRequest.CustomerVaultID = [], PaymentRequest.Type = ''sale'',
     PaymentRequest.OrderID = [], CustomerID = [], IdempotencyKey = [],
     RecurringPayment = False, PlanID = [], Billing = None\<rparr>"

definition approving_gateway :: gateway where
  "approving_gateway formData =
     Inr ''response=1&responsetext=SUCCESS&transactionid=123&response_code=100''"

definition declining_gateway :: gateway where
  "declining_gateway formData = Inr ''response=2&responsetext=DECLINE&response_code=300''"

definition keyed_request :: PaymentRequest where
  "keyed_request = valid_request\<lparr>IdempotencyKey := ''order-1''\<rparr>"

definition empty_world :: world where
  "empty_world = \<lparr>processed = Map.empty, requests = []\<rparr>"

lemmas Err_defs = ErrInvalidCard_def ErrInvalidAmount_def ErrInvalidRequest_def
  ErrDuplicateTransaction_def ErrProcessingError_def ErrPartialResponse_def
  ErrInvalidRefund_def ErrNetworkError_def ErrAuthenticationFailed_def
  ErrInvalidAction_def ErrSystemError_def

section \<open>Properties of the rounding\<close>

lemma bit_length_0 [simp]: "bit_length 0 = 0"
  by (simp add: bit_length.simps)

lemma bit_length_pos: "0 < n \<Longrightarrow> bit_length n = Suc (bit_length (n div 2))"
  by (subst bit_length.simps) simp

lemma bit_length_lower: "0 < n \<Longrightarrow> 2 ^ (bit_length n - 1) \<le> n"
proof (induction n rule: bit_length.induct)
  case (1 n)
  show ?case
  proof (cases "n div 2 = 0")
    case True
    with "1.prems" show ?thesis by (simp add: bit_length_pos)
  next
    case False
    then have pos: "0 < n div 2" by simp
    with "1.IH" "1.prems" have "2 ^ (bit_length (n div 2) - 1) \<le> n div 2" by simp
    moreover have "bit_length (n div 2) = Suc (bit_length (n div 2) - 1)"
      using pos by (simp add: bit_length_pos)
    ultimately have "2 ^ bit_length (n div 2) \<le> 2 * (n div 2)"
      by (metis mult_le_mono2 power_Suc)
    then show ?thesis using "1.prems" by (simp add: bit_length_pos)
  qed
qed

lemma bit_length_upper: "n < 2 ^ bit_length n"
proof (induction n rule: bit_length.induct)
  case (1 n)
  show ?case
  proof (cases "n = 0")
    case True
    then show ?thesis by simp
  next
    case False
    with "1.IH" have "n div 2 < 2 ^ bit_length (n div 2)" by simp
    then have "n < 2 * 2 ^ bit_length (n div 2)" by linarith
    with False show ?thesis by (simp add: bit_length_pos)
  qed
qed

lemma bit_length_le: "n < 2 ^ k \<Longrightarrow> bit_length n \<le> k"
proof (rule ccontr)
  assume lt: "n < 2 ^ k" and "\<not> bit_length n \<le> k"
  then have "k \<le> bit_length n - 1" and "0 < n"
    by (auto intro: Nat.gr0I)
  then have "(2::nat) ^ k \<le> 2 ^ (bit_length n - 1)" by (simp add: power_increasing)
  also have "\<dots> \<le> n" using \<open>0 < n\<close> by (rule bit_length_lower)
  finally show False using lt by simp
qed

text \<open>The rounding step is within half a spacing of the exact value.\<close>

lemma round_f64_zero: "0 < b \<Longrightarrow> round_f64 0 b = Finite 0"
  by (simp add: round_f64_def Let_def)

lemma round_f64_positive:
  assumes "0 < b" and "b \<le> a * 2 ^ f64_unit"
  shows "\<not> f64_le (round_f64 a b) (Finite 0)"
proof -
  define x where "x = a * 2 ^ f64_unit"
  define s where "s = bit_length (x div b) - 53"
  define y where "y = b * 2 ^ s"
  define m where "m = (if 2 * (x mod y) < y then x div y
               else if y < 2 * (x mod y) then x div y + 1
               else if even (x div y) then x div y else x div y + 1)"
  have n1: "0 < x div b" using assms by (simp add: x_def div_greater_zero_iff)
  have "2 ^ s \<le> (2::nat) ^ (bit_length (x div b) - 1)"
    unfolding s_def by (rule power_increasing) simp_all
  also have "\<dots> \<le> x div b" using n1 by (rule bit_length_lower)
  finally have "b * 2 ^ s \<le> b * (x div b)" by simp
  also have "\<dots> \<le> x" by simp
  finally have "y \<le> x" by (simp add: y_def)
  moreover have "0 < y" using assms by (simp add: y_def)
  ultimately have "0 < x div y" by (simp add: div_greater_zero_iff)
  then have "0 < m" by (simp add: m_def)
  then have "0 < m * 2 ^ s" by simp
  then have "\<not> int (m * 2 ^ s) \<le> 0" by linarith
  moreover have "round_f64 a b = (if 2 ^ (1024 + f64_unit) \<le> m * 2 ^ s then PosInf else Finite (int (m * 2 ^ s)))"
    by (simp add: round_f64_def Let_def x_def s_def y_def m_def)
  ultimately show ?thesis by (simp del: of_nat_mult of_nat_power)
qed

section \<open>Properties of the validator\<close>

lemma not_digit_dot [simp]: "\<not> is_digit CHR ''.''"
  by (simp add: is_digit_def)

lemma amountRegex_iff:
  "amountRegex s \<longleftrightarrow>
     (\<exists>ip d1 d2. s = ip @ [CHR ''.'', d1, d2] \<and> ip \<noteq> [] \<and> list_all is_digit ip
        \<and> is_digit d1 \<and> is_digit d2)"
proof
  assume m: "amountRegex s"
  then obtain d1 d2 where rest: "dropWhile is_digit s = [CHR ''.'', d1, d2]"
    and d: "is_digit d1" "is_digit d2" and ip: "takeWhile is_digit s \<noteq> []"
    by (auto simp: amountRegex_def split: list.splits)
  have "s = takeWhile is_digit s @ dropWhile is_digit s" by simp
  moreover have "list_all is_digit (takeWhile is_digit s)"
    by (simp add: list_all_iff) (meson set_takeWhileD)
  ultimately show "\<exists>ip d1 d2. s = ip @ [CHR ''.'', d1, d2] \<and> ip \<noteq> [] \<and> list_all is_digit ip
        \<and> is_digit d1 \<and> is_digit d2"
    using rest d ip by metis
next
  assume "\<exists>ip d1 d2. s = ip @ [CHR ''.'', d1, d2] \<and> ip \<noteq> [] \<and> list_all is_digit ip
        \<and> is_digit d1 \<and> is_digit d2"
  then obtain ip d1 d2 where s: "s = ip @ [CHR ''.'', d1, d2]" and ip: "ip \<noteq> []"
    "list_all is_digit ip" and d: "is_digit d1" "is_digit d2"
    by blast
  have t: "takeWhile is_digit s = ip" and dr: "dropWhile is_digit s = [CHR ''.'', d1, d2]"
    using ip(2) by (simp_all add: s list_all_iff takeWhile_append2 dropWhile_append2)
  show "amountRegex s"
    using ip d by (simp add: amountRegex_def t dr)
qed

lemma amountRegex_parts:
  assumes "amountRegex s"
  shows "decimal_parts s = Some (takeWhile is_digit s, drop 1 (dropWhile is_digit s))"
    and "length (drop 1 (dropWhile is_digit s)) = 2"
    and "filter is_digit s = takeWhile is_digit s @ drop 1 (dropWhile is_digit s)"
proof -
  from assms obtain ip d1 d2 where s: "s = ip @ [CHR ''.'', d1, d2]" and ip: "ip \<noteq> []"
    "list_all is_digit ip" and d: "is_digit d1" "is_digit d2"
    unfolding amountRegex_iff by blast
  have t: "takeWhile is_digit s = ip" and dr: "dropWhile is_digit s = [CHR ''.'', d1, d2]"
    using ip(2) by (simp_all add: s list_all_iff takeWhile_append2 dropWhile_append2)
  show "decimal_parts s = Some (takeWhile is_digit s, drop 1 (dropWhile is_digit s))"
    using ip d by (simp add: decimal_parts_def t dr)
  show "length (drop 1 (dropWhile is_digit s)) = 2" by (simp add: dr)
  have "filter is_digit ip = ip" using ip(2) by (simp add: list_all_iff)
  then show "filter is_digit s = takeWhile is_digit s @ drop 1 (dropWhile is_digit s)"
    using d by (simp add: t dr) (simp add: s)
qed

lemma ParseFloat_amount:
  assumes "amountRegex s"
  shows "ParseFloat rt s = round_f64 (amount_cents s) 100"
  using amountRegex_parts [OF assms] by (simp add: ParseFloat_def amount_cents_def)

lemma hundred_le_unit: "(100::nat) \<le> 2 ^ f64_unit"
proof -
  have "(100::nat) \<le> 2 ^ 7" by simp
  also have "\<dots> \<le> 2 ^ f64_unit" by (rule power_increasing) (simp_all add: f64_unit_def)
  finally show ?thesis .
qed

lemma parsed_amount_nonpositive_iff:
  assumes "amountRegex s"
  shows "f64_le (ParseFloat rt s) (Finite 0) \<longleftrightarrow> amount_cents s = 0"
proof (cases "amount_cents s = 0")
  case True
  then show ?thesis by (simp add: ParseFloat_amount [OF assms] round_f64_zero)
next
  case False
  then have "1 * 100 \<le> amount_cents s * 2 ^ f64_unit"
    by (intro mult_le_mono hundred_le_unit) simp
  then have "\<not> f64_le (round_f64 (amount_cents s) 100) (Finite 0)"
    by (intro round_f64_positive) simp_all
  with False show ?thesis by (simp add: ParseFloat_amount [OF assms])
qed

lemma validateAmount_eq:
  "validateAmount rt s =
     (if \<not> amountRegex s then
        Some (NMI (NewNMIError ErrInvalidAmount
          ''invalid amount format: must be in dollars.cents format (e.g., 10.99)'' []))
      else if amount_cents s = 0 then
        Some (NMI (NewNMIError ErrInvalidAmount ''amount must be greater than zero'' []))
      else None)"
  by (simp add: validateAmount_def Let_def parsed_amount_nonpositive_iff)

lemmas digit_simps = is_digit_def digit_val_def nat_of_digits_def amount_cents_def

text \<open>
  C7. An amount that does not match \<open>^\d+\.\d{2}$\<close>, or whose parsed value is at most
  zero (for a matching amount: whose digits spell zero cents), is rejected with
  \<open>invalid_amount\<close>.
\<close>

theorem amount_validation:
  assumes "\<not> amountRegex amount \<or> f64_le (ParseFloat rt amount) (Finite 0)
             \<or> (amountRegex amount \<and> amount_cents amount = 0)"
  shows "\<exists>e. validateAmount rt amount = Some (NMI e) \<and> Code e = ''invalid_amount''"
proof (cases "amountRegex amount")
  case False
  then show ?thesis by (simp add: validateAmount_eq NewNMIError_def ErrInvalidAmount_def)
next
  case True
  with assms have "amount_cents amount = 0"
    by (auto simp: parsed_amount_nonpositive_iff)
  with True show ?thesis by (simp add: validateAmount_eq NewNMIError_def ErrInvalidAmount_def)
qed

theorem amount_validation_witness:
  "\<not> amountRegex ''10.9''
   \<and> (\<exists>e. validateAmount test_runtime ''10.9'' = Some (NMI e) \<and> Code e = ''invalid_amount'')
   \<and> amountRegex ''0.00'' \<and> amount_cents ''0.00'' = 0
   \<and> (\<exists>e. validateAmount test_runtime ''0.00'' = Some (NMI e) \<and> Code e = ''invalid_amount'')"
proof -
  have h1: "\<not> amountRegex ''10.9''" by (simp add: amountRegex_def is_digit_def)
  have h2: "amountRegex ''0.00'' \<and> amount_cents ''0.00'' = 0"
    by (simp add: amountRegex_def digit_simps)
  from amount_validation [of "''10.9''" test_runtime] amount_validation [of "''0.00''" test_runtime]
    h1 h2 show ?thesis by blast
qed

text \<open>
  C10. A refund request with a transaction id and an empty amount passes the refund
  validation whatever the original amount is: none of the checks on the amount is run.
\<close>

theorem refund_without_amount:
  assumes "RefundRequest.TransactionID req \<noteq> []" and "RefundRequest.Amount req = []"
  shows "ValidateRefundRequest rt req originalAmount = None"
  using assms by (simp add: ValidateRefundRequest_def)

theorem refund_without_amount_witness:
  "RefundRequest.TransactionID
      \<lparr>RefundRequest.APIKey = ''key'', TransactionID = ''123'', Amount = []\<rparr> \<noteq> []
   \<and> RefundRequest.Amount
      \<lparr>RefundRequest.APIKey = ''key'', TransactionID = ''123'', Amount = []\<rparr> = []
   \<and> ValidateRefundRequest test_runtime
        \<lparr>RefundRequest.APIKey = ''key'', TransactionID = ''123'', Amount = []\<rparr> ''0.01'' = None"
  using refund_without_amount
    [of "\<lparr>RefundRequest.APIKey = ''key'', TransactionID = ''123'', Amount = []\<rparr>"
        test_runtime "''0.01''"]
  by simp


section \<open>Properties of the response parser\<close>

lemma codeMap_spec:
  "(case codeMap rc of Some c \<Rightarrow> c | None \<Rightarrow> ErrProcessingError) = spec_classification rc"
  by (simp add: codeMap_def spec_classification_def Err_defs)

lemma ParseNMIErrorResponse_fields:
  "Code (ParseNMIErrorResponse t rc raw) = spec_classification rc"
  "NMIError.Message (ParseNMIErrorResponse t rc raw) = t"
  "Raw (ParseNMIErrorResponse t rc raw) = raw"
  by (simp_all add: ParseNMIErrorResponse_def Let_def codeMap_spec)

lemma ParseNMIResponse_failure:
  assumes "snd (ParseQuery raw) = None" and "Get (fst (ParseQuery raw)) ''response'' \<noteq> ''1''"
  shows "snd (ParseNMIResponse raw) =
           Some (NMI (ParseNMIErrorResponse (Get (fst (ParseQuery raw)) ''responsetext'')
                        (Get (fst (ParseQuery raw)) ''response_code'') raw))"
    and "fst (ParseNMIResponse raw) \<noteq> None"
  using assms by (cases "ParseQuery raw"; simp add: ParseNMIResponse_def response_of_values_def Let_def)+

lemma ParseNMIResponse_success:
  assumes "snd (ParseQuery raw) = None" and "Get (fst (ParseQuery raw)) ''response'' = ''1''"
  shows "snd (ParseNMIResponse raw) = None" and "fst (ParseNMIResponse raw) \<noteq> None"
  using assms by (cases "ParseQuery raw"; simp add: ParseNMIResponse_def response_of_values_def Let_def)+

lemma ParseNMIResponse_undecodable:
  assumes "snd (ParseQuery raw) = Some e"
  shows "ParseNMIResponse raw = (None, Some (ErrorfWrap ''failed to parse NMI response: '' e))"
  using assms by (cases "ParseQuery raw") (simp add: ParseNMIResponse_def)

lemma ParseNMIResponse_ok_iff:
  "(snd (ParseNMIResponse raw) = None) =
     (snd (ParseQuery raw) = None \<and> Get (fst (ParseQuery raw)) ''response'' = ''1'')"
  by (cases "ParseQuery raw") (auto simp: ParseNMIResponse_def response_of_values_def Let_def split: option.splits)

text \<open>
  C3. When the raw response decodes and its \<open>response\<close> field is not \<open>1\<close>, the parser
  returns a classified error whose code is the table's entry for the decoded
  \<open>response_code\<close> (\<open>processing_error\<close> for every code outside the table, the empty
  string of a missing field among them), whose message is the decoded response text and
  whose raw field is the raw response.
\<close>

theorem classifier_table:
  assumes "snd (ParseQuery raw) = None"
    and "Get (fst (ParseQuery raw)) ''response'' \<noteq> ''1''"
  shows "\<exists>e. snd (ParseNMIResponse raw) = Some (NMI e)
           \<and> Code e = spec_classification (Get (fst (ParseQuery raw)) ''response_code'')
           \<and> NMIError.Message e = Get (fst (ParseQuery raw)) ''responsetext''
           \<and> Raw e = raw"
  using ParseNMIResponse_failure(1) [OF assms] by (simp add: ParseNMIErrorResponse_fields)

theorem classifier_table_witness:
  "snd (ParseQuery ''response=2&responsetext=DECLINE&response_code=300'') = None
   \<and> Get (fst (ParseQuery ''response=2&responsetext=DECLINE&response_code=300'')) ''response'' \<noteq> ''1''
   \<and> (\<exists>e. snd (ParseNMIResponse ''response=2&responsetext=DECLINE&response_code=300'') = Some (NMI e)
        \<and> Code e = ''authentication_failed'' \<and> NMIError.Message e = ''DECLINE'')"
proof -
  let ?raw = "''response=2&responsetext=DECLINE&response_code=300''"
  have h1: "snd (ParseQuery ?raw) = None" by code_simp
  have h2: "Get (fst (ParseQuery ?raw)) ''response'' \<noteq> ''1''" by code_simp
  have c: "spec_classification (Get (fst (ParseQuery ?raw)) ''response_code'') = ''authentication_failed''"
    by code_simp
  have t: "Get (fst (ParseQuery ?raw)) ''responsetext'' = ''DECLINE''" by code_simp
  from classifier_table [OF h1 h2] c t h1 h2 show ?thesis by auto
qed

text \<open>
  C4. The parser returns a record and no error exactly when the raw response decodes and
  its \<open>response\<close> field is the string \<open>1\<close>; a decoded response with any other
  \<open>response\<close> value comes back with a classified error; and the raw text of the
  specification's scenario parses to a success record with transaction id \<open>123\<close>.
\<close>

theorem response_success_test:
  "((\<exists>r. ParseNMIResponse raw = (Some r, None)) \<longleftrightarrow>
      (snd (ParseQuery raw) = None \<and> Get (fst (ParseQuery raw)) ''response'' = ''1''))
   \<and> (snd (ParseQuery raw) = None \<and> Get (fst (ParseQuery raw)) ''response'' \<noteq> ''1'' \<longrightarrow>
        (\<exists>r e. ParseNMIResponse raw = (Some r, Some (NMI e))))
   \<and> (\<exists>r. ParseNMIResponse ''response=1&responsetext=SUCCESS&transactionid=123&response_code=100''
             = (Some r, None) \<and> NMIResponse.TransactionID r = ''123'' \<and> NMIResponse.Response r = ''1'')"
proof (intro conjI)
  show "(\<exists>r. ParseNMIResponse raw = (Some r, None)) \<longleftrightarrow>
      (snd (ParseQuery raw) = None \<and> Get (fst (ParseQuery raw)) ''response'' = ''1'')"
    by (cases "ParseQuery raw") (auto simp: ParseNMIResponse_def response_of_values_def Let_def split: option.splits)
  show "snd (ParseQuery raw) = None \<and> Get (fst (ParseQuery raw)) ''response'' \<noteq> ''1'' \<longrightarrow>
        (\<exists>r e. ParseNMIResponse raw = (Some r, Some (NMI e)))"
    by (cases "ParseQuery raw") (auto simp: ParseNMIResponse_def response_of_values_def Let_def split: option.splits)
  let ?ok = "''response=1&responsetext=SUCCESS&transactionid=123&response_code=100''"
  have "snd (ParseNMIResponse ?ok) = None"
    and "map_option NMIResponse.TransactionID (fst (ParseNMIResponse ?ok)) = Some ''123''"
    and "map_option NMIResponse.Response (fst (ParseNMIResponse ?ok)) = Some ''1''"
    by code_simp+
  then show "\<exists>r. ParseNMIResponse ?ok = (Some r, None)
               \<and> NMIResponse.TransactionID r = ''123'' \<and> NMIResponse.Response r = ''1''"
    by (cases "ParseNMIResponse ?ok") auto
qed

theorem response_success_test_witness:
  "snd (ParseQuery ''response=3&responsetext=Invalid+amount&response_code=201'') = None
   \<and> Get (fst (ParseQuery ''response=3&responsetext=Invalid+amount&response_code=201'')) ''response''
       \<noteq> ''1''
   \<and> (\<exists>r e. ParseNMIResponse ''response=3&responsetext=Invalid+amount&response_code=201''
               = (Some r, Some (NMI e)))
   \<and> \<not> (\<exists>r. ParseNMIResponse ''response=3&responsetext=Invalid+amount&response_code=201''
               = (Some r, None))"
proof -
  let ?raw = "''response=3&responsetext=Invalid+amount&response_code=201''"
  have h1: "snd (ParseQuery ?raw) = None" by code_simp
  have h2: "Get (fst (ParseQuery ?raw)) ''response'' \<noteq> ''1''" by code_simp
  from response_success_test [of ?raw] h1 h2 show ?thesis by blast
qed

lemma digit_val_le: "is_digit c \<Longrightarrow> digit_val c \<le> 9"
  by (auto simp: is_digit_def digit_val_def Let_def)

lemma luhn_step:
  assumes "d \<le> 9" and "odd i = alternate"
  shows "(if alternate then (let n = d * 2 in if n > 9 then (n mod 10) + 1 else n) else d)
           = luhn_digit i d"
proof (cases "odd i")
  case False
  with assms show ?thesis by (simp add: luhn_digit_def)
next
  case True
  have "(2 * d) div 10 = 1" if "9 < 2 * d" using that assms(1) by simp
  with True assms show ?thesis by (simp add: luhn_digit_def Let_def mult.commute)
qed

lemma luhn_loop_spec:
  assumes "list_all is_digit cs" and "odd i = alternate"
  shows "luhn_loop cs sum_acc alternate
           = sum_acc + sum_list (map (\<lambda>(i, c). luhn_digit i (digit_val c)) (enumerate i cs))"
  using assms
proof (induction cs arbitrary: sum_acc alternate i)
  case Nil
  then show ?case by simp
next
  case (Cons c cs)
  from Cons.prems have d: "digit_val c \<le> 9" and rest: "list_all is_digit cs"
    by (simp_all add: digit_val_le)
  have "odd (Suc i) = (\<not> alternate)" using Cons.prems(2) by simp
  from Cons.IH [OF rest this] luhn_step [OF d Cons.prems(2)]
  show ?case by (simp add: Let_def)
qed

lemma luhn_loop_spec_luhn:
  "list_all is_digit number \<Longrightarrow> (luhn_loop (rev number) 0 False mod 10 = 0) = spec_luhn number"
  by (simp add: luhn_loop_spec [where i = 0] spec_luhn_def list_all_iff)

lemma validateCreditCard_eq:
  "validateCreditCard number =
     (if \<not> cardRegex (strip_separators number) then
        Some (NMI (NewNMIError ErrInvalidCard ''invalid credit card number length'' []))
      else if \<not> spec_luhn (strip_separators number) then
        Some (NMI (NewNMIError ErrInvalidCard ''invalid credit card number (failed Luhn check)'' []))
      else None)"
proof (cases "cardRegex (strip_separators number)")
  case False
  then show ?thesis by (simp add: validateCreditCard_def Let_def)
next
  case True
  then have "list_all is_digit (strip_separators number)" by (simp add: cardRegex_def)
  from luhn_loop_spec_luhn [OF this, symmetric] True show ?thesis
    by (simp add: validateCreditCard_def Let_def)
qed

lemma char_digit_iff:
  "c = CHR ''0'' \<longleftrightarrow> (of_char c :: nat) = 48"
  "c = CHR ''1'' \<longleftrightarrow> (of_char c :: nat) = 49"
  "c = CHR ''2'' \<longleftrightarrow> (of_char c :: nat) = 50"
proof -
  have "c = CHR ''0'' \<longleftrightarrow> (of_char c :: nat) = of_char CHR ''0''"
    and "c = CHR ''1'' \<longleftrightarrow> (of_char c :: nat) = of_char CHR ''1''"
    and "c = CHR ''2'' \<longleftrightarrow> (of_char c :: nat) = of_char CHR ''2''"
    by (simp_all only: of_char_eq_iff)
  then show "c = CHR ''0'' \<longleftrightarrow> (of_char c :: nat) = 48"
    and "c = CHR ''1'' \<longleftrightarrow> (of_char c :: nat) = 49"
    and "c = CHR ''2'' \<longleftrightarrow> (of_char c :: nat) = 50"
    by simp_all
qed

lemma length_four: "length s = 4 \<Longrightarrow> \<exists>a b c d. s = [a, b, c, d]"
  by (auto simp: numeral_eq_Suc length_Suc_conv)

lemma expRegex_iff:
  "expRegex s \<longleftrightarrow>
     (length s = 4 \<and> list_all is_digit s
      \<and> 1 \<le> nat_of_digits (take 2 s) \<and> nat_of_digits (take 2 s) \<le> 12)"
proof (cases "length s = 4")
  case False
  then show ?thesis
    by (auto simp: expRegex_def split: list.splits)
next
  case True
  then obtain m1 m2 y1 y2 where s: "s = [m1, m2, y1, y2]"
    using length_four by blast
  show ?thesis
    unfolding s
    by (auto simp: expRegex_def is_digit_def nat_of_digits_def digit_val_def Let_def
        char_digit_iff)
qed

lemma validateExpirationDate_eq:
  "validateExpirationDate rt expDate =
     (if \<not> expRegex expDate then
        Some (NMI (NewNMIError ErrInvalidCard ''invalid expiration date format (must be MMYY)'' []))
      else if nat_of_digits (drop 2 expDate) < now_Year rt mod 100
              \<or> (nat_of_digits (drop 2 expDate) = now_Year rt mod 100
                  \<and> nat_of_digits (take 2 expDate) < now_Month rt) then
        Some (NMI (NewNMIError ErrInvalidCard ''card has expired'' []))
      else None)"
  by (simp add: validateExpirationDate_def Let_def)

text \<open>
  C6. With the white space and the hyphens removed, a card number that is not 13 to 19
  digits or fails the Luhn checksum is rejected with \<open>invalid_card\<close>; a number of 13 to
  19 digits that passes the checksum, with an expiry of four digits whose month is 01 to
  12 and that is not before the current month of the current two-digit year, and a CVV
  of 3 or 4 digits, passes the three checks and the card path of the request validator.
\<close>

theorem card_validation:
  "(\<not> (list_all is_digit (strip_separators number)
         \<and> 13 \<le> length (strip_separators number) \<and> length (strip_separators number) \<le> 19)
      \<or> \<not> spec_luhn (strip_separators number)
     \<longrightarrow> (\<exists>e. validateCreditCard number = Some (NMI e) \<and> Code e = ''invalid_card''))
   \<and> (list_all is_digit (strip_separators number)
        \<and> 13 \<le> length (strip_separators number) \<and> length (strip_separators number) \<le> 19
        \<and> spec_luhn (strip_separators number)
        \<and> length expDate = 4 \<and> list_all is_digit expDate
        \<and> 1 \<le> nat_of_digits (take 2 expDate) \<and> nat_of_digits (take 2 expDate) \<le> 12
        \<and> (now_Year rt mod 100 < nat_of_digits (drop 2 expDate)
             \<or> (now_Year rt mod 100 = nat_of_digits (drop 2 expDate)
                 \<and> now_Month rt \<le> nat_of_digits (take 2 expDate)))
        \<and> list_all is_digit cvv \<and> 3 \<le> length cvv \<and> length cvv \<le> 4
     \<longrightarrow> validateCreditCard number = None
         \<and> validateExpirationDate rt expDate = None
         \<and> validateCVV cvv = None
         \<and> validate_card_details rt (req\<lparr>CreditCard := number, ExpDate := expDate, CVV := cvv\<rparr>)
             = None)"
proof (rule conjI; rule impI)
  assume "\<not> (list_all is_digit (strip_separators number)
         \<and> 13 \<le> length (strip_separators number) \<and> length (strip_separators number) \<le> 19)
      \<or> \<not> spec_luhn (strip_separators number)"
  then show "\<exists>e. validateCreditCard number = Some (NMI e) \<and> Code e = ''invalid_card''"
    by (auto simp: validateCreditCard_eq cardRegex_def NewNMIError_def ErrInvalidCard_def)
next
  assume h: "list_all is_digit (strip_separators number)
        \<and> 13 \<le> length (strip_separators number) \<and> length (strip_separators number) \<le> 19
        \<and> spec_luhn (strip_separators number)
        \<and> length expDate = 4 \<and> list_all is_digit expDate
        \<and> 1 \<le> nat_of_digits (take 2 expDate) \<and> nat_of_digits (take 2 expDate) \<le> 12
        \<and> (now_Year rt mod 100 < nat_of_digits (drop 2 expDate)
             \<or> (now_Year rt mod 100 = nat_of_digits (drop 2 expDate)
                 \<and> now_Month rt \<le> nat_of_digits (take 2 expDate)))
        \<and> list_all is_digit cvv \<and> 3 \<le> length cvv \<and> length cvv \<le> 4"
  then have card: "validateCreditCard number = None"
    by (simp add: validateCreditCard_eq cardRegex_def)
  from h have "expRegex expDate" by (simp add: expRegex_iff)
  with h have exp: "validateExpirationDate rt expDate = None"
    by (auto simp: validateExpirationDate_eq)
  from h have cvv: "validateCVV cvv = None"
    by (simp add: validateCVV_def cvvRegex_def)
  from h have "strip_separators number \<noteq> []" and "expDate \<noteq> []" and "cvv \<noteq> []"
    by auto
  then have "number \<noteq> []" and "expDate \<noteq> []" and "cvv \<noteq> []"
    by (auto simp: strip_separators_def)
  with card exp cvv
  have "validate_card_details rt (req\<lparr>CreditCard := number, ExpDate := expDate, CVV := cvv\<rparr>) = None"
    by (simp add: validate_card_details_def)
  with card exp cvv
  show "validateCreditCard number = None
         \<and> validateExpirationDate rt expDate = None
         \<and> validateCVV cvv = None
         \<and> validate_card_details rt (req\<lparr>CreditCard := number, ExpDate := expDate, CVV := cvv\<rparr>)
             = None"
    by simp
qed

lemmas card_eval = strip_separators_def is_space_def spec_luhn_def luhn_digit_def digit_simps

theorem card_validation_witness:
  "\<not> spec_luhn (strip_separators ''4111111111111112'')
   \<and> (\<exists>e. validateCreditCard ''4111111111111112'' = Some (NMI e) \<and> Code e = ''invalid_card'')
   \<and> strip_separators ''4111 1111-1111 1111'' = ''4111111111111111''
   \<and> spec_luhn ''4111111111111111''
   \<and> nat_of_digits (take 2 ''1225'') = 12 \<and> nat_of_digits (drop 2 ''1225'') = 25
   \<and> now_Year test_runtime mod 100 = 25 \<and> now_Month test_runtime = 6
   \<and> validateCreditCard ''4111 1111-1111 1111'' = None
   \<and> validateExpirationDate test_runtime ''1225'' = None
   \<and> validateCVV ''123'' = None
   \<and> validate_card_details test_runtime
        (valid_request\<lparr>CreditCard := ''4111 1111-1111 1111'', ExpDate := ''1225'', CVV := ''123''\<rparr>)
       = None"
proof -
  have bad: "\<not> spec_luhn (strip_separators ''4111111111111112'')"
    by (simp add: card_eval)
  have strip: "strip_separators ''4111 1111-1111 1111'' = ''4111111111111111''"
    by (simp add: card_eval)
  have luhn: "spec_luhn ''4111111111111111''"
    by (simp add: card_eval)
  have digits: "list_all is_digit ''4111111111111111''" "list_all is_digit ''1225''"
    "list_all is_digit ''123''"
    by (simp_all add: is_digit_def)
  have exp: "nat_of_digits (take 2 ''1225'') = 12" "nat_of_digits (drop 2 ''1225'') = 25"
    "now_Year test_runtime mod 100 = 25" "now_Month test_runtime = 6"
    by (simp_all add: digit_simps test_runtime_def)
  from card_validation [of "''4111111111111112''"] bad
  have one: "\<exists>e. validateCreditCard ''4111111111111112'' = Some (NMI e) \<and> Code e = ''invalid_card''"
    by blast
  from card_validation [of "''4111 1111-1111 1111''" "''1225''" test_runtime "''123''" valid_request]
    strip luhn digits exp
  have two: "validateCreditCard ''4111 1111-1111 1111'' = None
     \<and> validateExpirationDate test_runtime ''1225'' = None
     \<and> validateCVV ''123'' = None
     \<and> validate_card_details test_runtime
        (valid_request\<lparr>CreditCard := ''4111 1111-1111 1111'', ExpDate := ''1225'', CVV := ''123''\<rparr>)
       = None"
    by simp
  from bad one strip luhn exp two show ?thesis by blast
qed

section \<open>The request validator's unclassified errors\<close>

lemma valid_amount: "validateAmount rt ''10.99'' = None"
  by (simp add: validateAmount_eq amountRegex_def digit_simps)

lemma ToLower_sale: "ToLower rt ''sale'' = ''sale''"
  by (simp add: ToLower_def lower_ascii_def)

lemma valid_type: "validateTransactionType rt ''sale'' = None"
  by (simp add: validateTransactionType_def ToLower_sale validTypes_def)

lemma valid_card: "validateCreditCard ''4111111111111111'' = None"
  by (simp add: validateCreditCard_def strip_separators_def cardRegex_def is_space_def
      is_digit_def digit_val_def Let_def)

lemma valid_cvv: "validateCVV ''123'' = None"
  by (simp add: validateCVV_def cvvRegex_def is_digit_def)

lemma valid_exp: "validateExpirationDate test_runtime ''1225'' = None"
  by (simp add: validateExpirationDate_def expRegex_def digit_simps test_runtime_def Let_def)

lemmas valid_parts = valid_amount valid_type valid_card valid_cvv valid_exp

lemma valid_request_ok: "ValidatePaymentRequest test_runtime valid_request = None"
  by (simp add: ValidatePaymentRequest_def validate_card_details_def valid_request_def valid_parts)


text \<open>
  C5. The claim fails on the code: for a missing amount, a missing type, a missing card
  field and a vault id of fewer than 8 characters \<open>ValidatePaymentRequest\<close> returns an
  error made by \<open>fmt.Errorf\<close>, which carries no code of the taxonomy.
\<close>

theorem validator_unclassified_errors:
  "ValidatePaymentRequest test_runtime (valid_request\<lparr>PaymentRequest.Amount := []\<rparr>)
     = Some (Errorf ''amount is required'')
   \<and> ValidatePaymentRequest test_runtime (valid_request\<lparr>PaymentRequest.Type := []\<rparr>)
     = Some (Errorf ''type is required'')
   \<and> ValidatePaymentRequest test_runtime (valid_request\<lparr>CVV := []\<rparr>)
     = Some (Errorf ''either customer_vault_id or credit_card, exp_date, and cvv are required'')
   \<and> ValidatePaymentRequest test_runtime (valid_request\<lparr>PaymentRequest.CustomerVaultID := ''1234567''\<rparr>)
     = Some (Errorf ''customer_vault_id must be at least 8 characters'')"
  by (simp add: ValidatePaymentRequest_def validate_card_details_def valid_request_def valid_parts)

text \<open>Every other failure of \<open>ValidatePaymentRequest\<close> is a classified error with one
  of three codes.\<close>

lemma billing_error_classified:
  "validateBillingInfo billing = Some err \<Longrightarrow> \<exists>e. err = NMI e \<and> Code e = ''invalid_request''"
  by (auto simp: validateBillingInfo_def NewNMIError_def ErrInvalidRequest_def split: if_splits)

lemma card_details_error_kinds:
  assumes "validate_card_details rt req = Some err"
  shows "(\<exists>e. err = NMI e \<and> Code e = ''invalid_card'')
    \<or> err = Errorf ''either customer_vault_id or credit_card, exp_date, and cvv are required''"
  using assms
  by (auto simp: validate_card_details_def validateCreditCard_eq validateExpirationDate_eq
      validateCVV_def NewNMIError_def ErrInvalidCard_def split: if_splits option.splits)

lemma validator_error_kinds:
  assumes "ValidatePaymentRequest rt req = Some err"
  shows "(\<exists>e. err = NMI e \<and> Code e \<in> {''invalid_amount'', ''invalid_request'', ''invalid_card''})
    \<or> err \<in> {Errorf ''amount is required'', Errorf ''type is required'',
          Errorf ''either customer_vault_id or credit_card, exp_date, and cvv are required'',
          Errorf ''customer_vault_id must be at least 8 characters''}"
proof -
  have amount: "validateAmount rt a = Some e \<Longrightarrow> \<exists>n. e = NMI n \<and> Code n = ''invalid_amount''"
    for a e
    by (auto simp: validateAmount_eq NewNMIError_def ErrInvalidAmount_def split: if_splits)
  have type: "validateTransactionType rt t = Some e \<Longrightarrow> \<exists>n. e = NMI n \<and> Code n = ''invalid_request''"
    for t e
    by (auto simp: validateTransactionType_def NewNMIError_def ErrInvalidRequest_def
        split: if_splits)
  from assms show ?thesis
    unfolding ValidatePaymentRequest_def
    by (auto split: if_splits option.splits
        dest!: amount type billing_error_classified card_details_error_kinds)
qed

section \<open>The idempotency guard\<close>

lemma ParseNMIResponse_eq:
  "ParseNMIResponse raw =
     (case snd (ParseQuery raw) of
        Some err \<Rightarrow> (None, Some (ErrorfWrap ''failed to parse NMI response: '' err))
      | None \<Rightarrow>
          if Get (fst (ParseQuery raw)) ''response'' \<noteq> ''1'' then
            (Some (response_of_values (fst (ParseQuery raw))),
             Some (NMI (ParseNMIErrorResponse (Get (fst (ParseQuery raw)) ''responsetext'')
                          (Get (fst (ParseQuery raw)) ''response_code'') raw)))
          else (Some (response_of_values (fst (ParseQuery raw))), None))"
  by (cases "ParseQuery raw")
    (simp add: ParseNMIResponse_def response_of_values_def Let_def split: option.splits)


lemma ProcessPayment_eq:
  "ProcessPayment rt gw req w =
     (if IdempotencyKey req \<noteq> [] \<and> processed w (IdempotencyKey req) \<noteq> None then
        (Inl (NMI (NewNMIError ErrDuplicateTransaction ''duplicate transaction detected'' [])), w)
      else case ValidatePaymentRequest rt req of
        Some err \<Rightarrow> (Inl err, w)
      | None \<Rightarrow>
         (case gw (payment_form req) of
            Inl err \<Rightarrow> (Inl err, w\<lparr>requests := requests w @ [payment_form req]\<rparr>)
          | Inr raw \<Rightarrow>
             (case snd (ParseQuery raw) of
                Some err \<Rightarrow> (Inl (ErrorfWrap ''failed to parse NMI response: '' err),
                              w\<lparr>requests := requests w @ [payment_form req]\<rparr>)
              | None \<Rightarrow>
                  if Get (fst (ParseQuery raw)) ''response'' \<noteq> ''1'' then
                    (Inl (NMI (ParseNMIErrorResponse (Get (fst (ParseQuery raw)) ''responsetext'')
                            (Get (fst (ParseQuery raw)) ''response_code'') raw)),
                     w\<lparr>requests := requests w @ [payment_form req]\<rparr>)
                  else
                    (Inr (payment_response raw (response_of_values (fst (ParseQuery raw))) req),
                     if IdempotencyKey req \<noteq> [] then
                       w\<lparr>requests := requests w @ [payment_form req],
                          processed := (processed w)(IdempotencyKey req \<mapsto> True)\<rparr>
                     else w\<lparr>requests := requests w @ [payment_form req]\<rparr>))))"
  by (simp add: ProcessPayment_def sendRequest_def ParseNMIResponse_eq Let_def
      split: option.splits sum.splits)

text \<open>After a success the key is in the registry, and the guard answers the next request
  with that key before anything else is looked at.\<close>

lemma replay_after_success:
  assumes "IdempotencyKey req1 \<noteq> []"
    and "ProcessPayment rt1 gw1 req1 w = (Inr resp, w1)"
    and "IdempotencyKey req2 = IdempotencyKey req1"
  shows "\<exists>e. ProcessPayment rt2 gw2 req2 w1 = (Inl (NMI e), w1)
           \<and> Code e = ''duplicate_transaction''"
proof -
  from assms(1,2) have "processed w1 (IdempotencyKey req1) \<noteq> None"
    by (auto simp: ProcessPayment_eq split: if_splits option.splits sum.splits)
  with assms(1,3) show ?thesis
    by (simp add: ProcessPayment_def NewNMIError_def ErrDuplicateTransaction_def)
qed

lemma first_attempt_succeeds:
  assumes "IdempotencyKey req \<noteq> []" and "processed w (IdempotencyKey req) = None"
    and "ValidatePaymentRequest rt req = None"
    and "gw (payment_form req) = Inr raw"
    and "snd (ParseQuery raw) = None" and "Get (fst (ParseQuery raw)) ''response'' = ''1''"
  shows "ProcessPayment rt gw req w =
           (Inr (payment_response raw (response_of_values (fst (ParseQuery raw))) req),
            w\<lparr>requests := requests w @ [payment_form req],
               processed := (processed w)(IdempotencyKey req \<mapsto> True)\<rparr>)"
  using assms by (simp add: ProcessPayment_eq)

text \<open>
  C1. A request with a non-empty idempotency key that is not in the registry, that passes
  validation and that the gateway approves, is processed with success, with one form sent;
  the next request with the same key is then answered with \<open>duplicate_transaction\<close>,
  whatever its other fields, the clock and the gateway are, and the state is left as it
  was: no form is handed to \<open>sendRequest\<close>. The guard does not look at the transaction
  type, so this holds for sales as for every other type.
\<close>

theorem idempotent_replay:
  assumes "IdempotencyKey req1 \<noteq> []" and "processed w (IdempotencyKey req1) = None"
    and "ValidatePaymentRequest rt1 req1 = None"
    and "gw1 (payment_form req1) = Inr raw"
    and "snd (ParseQuery raw) = None" and "Get (fst (ParseQuery raw)) ''response'' = ''1''"
    and "IdempotencyKey req2 = IdempotencyKey req1"
  shows "\<exists>resp w1 e.
           ProcessPayment rt1 gw1 req1 w = (Inr resp, w1)
           \<and> requests w1 = requests w @ [payment_form req1]
           \<and> ProcessPayment rt2 gw2 req2 w1 = (Inl (NMI e), w1)
           \<and> Code e = ''duplicate_transaction''"
proof -
  let ?w1 = "w\<lparr>requests := requests w @ [payment_form req1],
                processed := (processed w)(IdempotencyKey req1 \<mapsto> True)\<rparr>"
  have first: "ProcessPayment rt1 gw1 req1 w =
      (Inr (payment_response raw (response_of_values (fst (ParseQuery raw))) req1), ?w1)"
    using assms(1-6) by (rule first_attempt_succeeds)
  from replay_after_success [OF assms(1) first assms(7)]
  obtain e where "ProcessPayment rt2 gw2 req2 ?w1 = (Inl (NMI e), ?w1)"
    and "Code e = ''duplicate_transaction''"
    by blast
  with first show ?thesis by simp
qed


lemma keyed_request_ok: "ValidatePaymentRequest test_runtime keyed_request = None"
  by (simp add: ValidatePaymentRequest_def validate_card_details_def keyed_request_def
      valid_request_def valid_parts)

lemma keyed_request_key: "IdempotencyKey keyed_request = ''order-1''"
  by (simp add: keyed_request_def)

lemma approval_decoded:
  "snd (ParseQuery ''response=1&responsetext=SUCCESS&transactionid=123&response_code=100'') = None"
  "Get (fst (ParseQuery ''response=1&responsetext=SUCCESS&transactionid=123&response_code=100''))
     ''response'' = ''1''"
  by code_simp+

lemma decline_decoded:
  "snd (ParseQuery ''response=2&responsetext=DECLINE&response_code=300'') = None"
  "Get (fst (ParseQuery ''response=2&responsetext=DECLINE&response_code=300'')) ''response'' = ''2''"
  "Get (fst (ParseQuery ''response=2&responsetext=DECLINE&response_code=300'')) ''responsetext''
     = ''DECLINE''"
  "Get (fst (ParseQuery ''response=2&responsetext=DECLINE&response_code=300'')) ''response_code''
     = ''300''"
  by code_simp+

lemma decline_error:
  "ParseNMIErrorResponse ''DECLINE'' ''300'' raw =
     \<lparr>Code = ''authentication_failed'', Message = ''DECLINE'', Details = [], Raw = raw\<rparr>"
  by (simp add: ParseNMIErrorResponse_def codeMap_def ErrAuthenticationFailed_def Let_def)

theorem idempotent_replay_witness:
  "IdempotencyKey keyed_request \<noteq> []
   \<and> processed empty_world (IdempotencyKey keyed_request) = None
   \<and> ValidatePaymentRequest test_runtime keyed_request = None
   \<and> approving_gateway (payment_form keyed_request)
       = Inr ''response=1&responsetext=SUCCESS&transactionid=123&response_code=100''
   \<and> IdempotencyKey (keyed_request\<lparr>PaymentRequest.Amount := ''1''\<rparr>) = IdempotencyKey keyed_request
   \<and> (\<exists>resp w1 e.
         ProcessPayment test_runtime approving_gateway keyed_request empty_world = (Inr resp, w1)
         \<and> requests w1 = requests empty_world @ [payment_form keyed_request]
         \<and> ProcessPayment test_runtime declining_gateway
              (keyed_request\<lparr>PaymentRequest.Amount := ''1''\<rparr>) w1 = (Inl (NMI e), w1)
         \<and> Code e = ''duplicate_transaction'')"
proof -
  have key: "IdempotencyKey keyed_request \<noteq> []" by (simp add: keyed_request_key)
  have fresh: "processed empty_world (IdempotencyKey keyed_request) = None"
    by (simp add: empty_world_def)
  have gw: "approving_gateway (payment_form keyed_request)
       = Inr ''response=1&responsetext=SUCCESS&transactionid=123&response_code=100''"
    by (simp add: approving_gateway_def)
  have same: "IdempotencyKey (keyed_request\<lparr>PaymentRequest.Amount := ''1''\<rparr>)
                = IdempotencyKey keyed_request"
    by simp
  from idempotent_replay [where ?req1.0 = keyed_request and w = empty_world
      and ?rt1.0 = test_runtime and ?gw1.0 = approving_gateway
      and raw = "''response=1&responsetext=SUCCESS&transactionid=123&response_code=100''"
      and ?req2.0 = "keyed_request\<lparr>PaymentRequest.Amount := ''1''\<rparr>"
      and ?rt2.0 = test_runtime and ?gw2.0 = declining_gateway,
      OF key fresh keyed_request_ok gw approval_decoded same]
    key fresh keyed_request_ok gw same
  show ?thesis by blast
qed

text \<open>
  C2. The claim fails on the code: the key is stored only after the reply has been parsed
  without error. What holds: for a request whose non-empty key is not in the registry yet,
  the key is in the registry after the call exactly when the call returns a response and
  no error, and that is exactly when the request passes validation and the gateway's
  reply decodes with the \<open>response\<close> field \<open>1\<close>. After a transport error, an undecodable
  reply or a decline the key is not stored, and a replay with the same key is not stopped
  by the guard.
\<close>

theorem key_recorded_iff_success:
  assumes "IdempotencyKey req \<noteq> []" and "processed w (IdempotencyKey req) = None"
  shows "((processed (snd (ProcessPayment rt gw req w)) (IdempotencyKey req) \<noteq> None)
           = (\<exists>resp. fst (ProcessPayment rt gw req w) = Inr resp))
       \<and> ((\<exists>resp. fst (ProcessPayment rt gw req w) = Inr resp)
           = (ValidatePaymentRequest rt req = None
              \<and> (\<exists>raw. gw (payment_form req) = Inr raw \<and> snd (ParseQuery raw) = None
                    \<and> Get (fst (ParseQuery raw)) ''response'' = ''1'')))"
  using assms
  by (auto simp: ProcessPayment_eq split: option.splits sum.splits)

theorem key_recorded_iff_success_witness:
  "IdempotencyKey keyed_request \<noteq> []
   \<and> processed empty_world (IdempotencyKey keyed_request) = None
   \<and> processed (snd (ProcessPayment test_runtime approving_gateway keyed_request empty_world))
        (IdempotencyKey keyed_request) \<noteq> None
   \<and> processed (snd (ProcessPayment test_runtime declining_gateway keyed_request empty_world))
        (IdempotencyKey keyed_request) = None"
proof -
  have key: "IdempotencyKey keyed_request \<noteq> []" by (simp add: keyed_request_key)
  have fresh: "processed empty_world (IdempotencyKey keyed_request) = None"
    by (simp add: empty_world_def)
  have ok: "approving_gateway (payment_form keyed_request)
              = Inr ''response=1&responsetext=SUCCESS&transactionid=123&response_code=100''"
    and no: "declining_gateway (payment_form keyed_request)
              = Inr ''response=2&responsetext=DECLINE&response_code=300''"
    by (simp_all add: approving_gateway_def declining_gateway_def)
  from key_recorded_iff_success [OF key fresh, of test_runtime approving_gateway]
    keyed_request_ok ok approval_decoded
  have one: "processed (snd (ProcessPayment test_runtime approving_gateway keyed_request empty_world))
        (IdempotencyKey keyed_request) \<noteq> None"
    by simp
  from key_recorded_iff_success [OF key fresh, of test_runtime declining_gateway]
    no decline_decoded
  have two: "processed (snd (ProcessPayment test_runtime declining_gateway keyed_request empty_world))
        (IdempotencyKey keyed_request) = None"
    by auto
  from key fresh one two show ?thesis by simp
qed

text \<open>C2, the counterexample. The keyed test request is declined by the gateway: the
  form has been sent, the key is not in the registry, and the replay is sent to the
  gateway again and succeeds.\<close>

theorem declined_key_not_recorded_counterexample:
  "requests (snd (ProcessPayment test_runtime declining_gateway keyed_request empty_world))
     = [payment_form keyed_request]
   \<and> fst (ProcessPayment test_runtime declining_gateway keyed_request empty_world)
     = Inl (NMI \<lparr>Code = ''authentication_failed'', Message = ''DECLINE'', Details = [],
                  Raw = ''response=2&responsetext=DECLINE&response_code=300''\<rparr>)
   \<and> processed (snd (ProcessPayment test_runtime declining_gateway keyed_request empty_world))
       ''order-1'' = None
   \<and> \<not> isl (fst (ProcessPayment test_runtime approving_gateway keyed_request
                   (snd (ProcessPayment test_runtime declining_gateway keyed_request empty_world))))"
proof -
  have first: "ProcessPayment test_runtime declining_gateway keyed_request empty_world
     = (Inl (NMI \<lparr>Code = ''authentication_failed'', Message = ''DECLINE'', Details = [],
                  Raw = ''response=2&responsetext=DECLINE&response_code=300''\<rparr>),
        \<lparr>processed = Map.empty, requests = [payment_form keyed_request]\<rparr>)"
    by (simp add: ProcessPayment_eq keyed_request_ok keyed_request_key empty_world_def
        declining_gateway_def decline_decoded decline_error)
  have "\<not> isl (fst (ProcessPayment test_runtime approving_gateway keyed_request
                   \<lparr>processed = Map.empty, requests = [payment_form keyed_request]\<rparr>))"
    by (simp add: ProcessPayment_eq keyed_request_ok keyed_request_key
        approving_gateway_def approval_decoded)
  with first show ?thesis by simp
qed

section \<open>Tokenization\<close>

lemma ProcessTokenization_eq:
  "ProcessTokenization rt gw rnd req w =
     (case ValidatePaymentRequest rt req of
        Some err \<Rightarrow> (Inl err, w)
      | None \<Rightarrow>
         (case rnd of
            None \<Rightarrow> (Inl (Panic ''failed to generate random number for vault ID''), w)
          | Some vaultID \<Rightarrow>
             (case gw (tokenize_form req vaultID) of
                Inl err \<Rightarrow> (Inl err, w\<lparr>requests := requests w @ [tokenize_form req vaultID]\<rparr>)
              | Inr raw \<Rightarrow>
                 (case snd (ParseQuery raw) of
                    Some err \<Rightarrow> (Inl (ErrorfWrap ''failed to parse NMI response: '' err),
                                  w\<lparr>requests := requests w @ [tokenize_form req vaultID]\<rparr>)
                  | None \<Rightarrow>
                      if Get (fst (ParseQuery raw)) ''response'' \<noteq> ''1'' then
                        (Inl (NMI (ParseNMIErrorResponse
                                (Get (fst (ParseQuery raw)) ''responsetext'')
                                (Get (fst (ParseQuery raw)) ''response_code'') raw)),
                         w\<lparr>requests := requests w @ [tokenize_form req vaultID]\<rparr>)
                      else
                        (Inr (tokenize_response vaultID raw
                                (response_of_values (fst (ParseQuery raw))) req),
                         w\<lparr>requests := requests w @ [tokenize_form req vaultID]\<rparr>)))))"
  by (simp add: ProcessTokenization_def generateUniqueVaultID_def sendRequest_def
      ParseNMIResponse_eq split: option.splits sum.splits)

text \<open>
  C9. The claim fails on the code: when the reply's \<open>response\<close> field is not \<open>1\<close>, the
  parser returns an error and the operation returns that error and no result. What holds:
  for a request that passes validation, with a vault id generated and a reply that
  decodes, the operation returns a tokenize result exactly when the \<open>response\<close> field is
  \<open>1\<close>, and its success flag is then true; for every other \<open>response\<close> value it returns
  the classified error of the reply.
\<close>

theorem tokenization_result:
  assumes "ValidatePaymentRequest rt req = None"
    and "gw (tokenize_form req vaultID) = Inr raw"
    and "snd (ParseQuery raw) = None"
  shows "fst (ProcessTokenization rt gw (Some vaultID) req w) =
     (if Get (fst (ParseQuery raw)) ''response'' = ''1'' then
        Inr \<lparr>TokenizeResponse.CustomerVaultID = vaultID, Token = vaultID,
             Masked = ExtractValue raw ''cc_number'', CardType = ExtractValue raw ''card_type'',
             ExpiryDate = ExpDate req, Success = True,
             Message = Get (fst (ParseQuery raw)) ''responsetext''\<rparr>
      else
        Inl (NMI (ParseNMIErrorResponse (Get (fst (ParseQuery raw)) ''responsetext'')
                    (Get (fst (ParseQuery raw)) ''response_code'') raw)))"
  using assms
  by (simp add: ProcessTokenization_eq tokenize_response_def response_of_values_def)

theorem tokenization_result_witness:
  "ValidatePaymentRequest test_runtime valid_request = None
   \<and> approving_gateway (tokenize_form valid_request ''4821''
        ) = Inr ''response=1&responsetext=SUCCESS&transactionid=123&response_code=100''
   \<and> snd (ParseQuery ''response=1&responsetext=SUCCESS&transactionid=123&response_code=100'') = None
   \<and> fst (ProcessTokenization test_runtime approving_gateway (Some ''4821'') valid_request empty_world)
       = Inr \<lparr>TokenizeResponse.CustomerVaultID = ''4821'', Token = ''4821'', Masked = [],
               CardType = [], ExpiryDate = ''1225'', Success = True, Message = ''SUCCESS''\<rparr>"
proof -
  let ?raw = "''response=1&responsetext=SUCCESS&transactionid=123&response_code=100''"
  have gw: "approving_gateway (tokenize_form valid_request ''4821'') = Inr ?raw"
    by (simp add: approving_gateway_def)
  have fields: "ExtractValue ?raw ''cc_number'' = []" "ExtractValue ?raw ''card_type'' = []"
    "Get (fst (ParseQuery ?raw)) ''responsetext'' = ''SUCCESS''"
    by code_simp+
  have exp: "ExpDate valid_request = ''1225''" by (simp add: valid_request_def)
  from tokenization_result [where rt = test_runtime and req = valid_request
      and gw = approving_gateway and vaultID = "''4821''" and raw = ?raw and w = empty_world]
    valid_request_ok gw approval_decoded fields exp
  show ?thesis by simp
qed

text \<open>C9, the counterexample. The valid test request, a vault id and a reply that
  decodes, but declines: the operation returns the classified error, and no tokenize
  result.\<close>

theorem tokenization_declined_counterexample:
  "ValidatePaymentRequest test_runtime valid_request = None
   \<and> declining_gateway (tokenize_form valid_request ''4821'')
       = Inr ''response=2&responsetext=DECLINE&response_code=300''
   \<and> snd (ParseQuery ''response=2&responsetext=DECLINE&response_code=300'') = None
   \<and> fst (ProcessTokenization test_runtime declining_gateway (Some ''4821'') valid_request empty_world)
       = Inl (NMI \<lparr>Code = ''authentication_failed'', Message = ''DECLINE'', Details = [],
                    Raw = ''response=2&responsetext=DECLINE&response_code=300''\<rparr>)"
  by (simp add: ProcessTokenization_eq valid_request_ok declining_gateway_def decline_decoded
      decline_error)

section \<open>Refund amounts\<close>

text \<open>The result of rounding, and its distance from the exact value: at most half a
  spacing. All in units of \<open>2^(-1074)\<close>, multiplied by the denominator.\<close>

lemma round_f64_significand:
  assumes "0 < b"
  obtains m where
    "round_f64 a b =
       (if 2 ^ (1024 + f64_unit) \<le> m * 2 ^ (bit_length (a * 2 ^ f64_unit div b) - 53) then PosInf
        else Finite (int (m * 2 ^ (bit_length (a * 2 ^ f64_unit div b) - 53))))"
    "2 * (m * (b * 2 ^ (bit_length (a * 2 ^ f64_unit div b) - 53)))
       \<le> 2 * (a * 2 ^ f64_unit) + b * 2 ^ (bit_length (a * 2 ^ f64_unit div b) - 53)"
    "2 * (a * 2 ^ f64_unit)
       \<le> 2 * (m * (b * 2 ^ (bit_length (a * 2 ^ f64_unit div b) - 53)))
           + b * 2 ^ (bit_length (a * 2 ^ f64_unit div b) - 53)"
proof -
  define x where "x = a * 2 ^ f64_unit"
  define s where "s = bit_length (x div b) - 53"
  define y where "y = b * 2 ^ s"
  define q where "q = x div y"
  define r where "r = x mod y"
  define m where "m = (if 2 * r < y then q else if y < 2 * r then q + 1
                       else if even q then q else q + 1)"
  have y: "0 < y" using assms by (simp add: y_def)
  have x: "x = q * y + r" by (simp add: q_def r_def)
  have r: "r < y" using y by (simp add: r_def)
  have up: "2 * (m * y) \<le> 2 * x + y"
    using r by (auto simp: m_def x add_mult_distrib)
  have lo: "2 * x \<le> 2 * (m * y) + y"
    using r by (auto simp: m_def x add_mult_distrib)
  have "round_f64 a b = (if 2 ^ (1024 + f64_unit) \<le> m * 2 ^ s then PosInf else Finite (int (m * 2 ^ s)))"
    by (simp add: round_f64_def Let_def x_def s_def y_def m_def q_def r_def)
  with up lo show thesis
    using that [of m] by (simp only: x_def s_def y_def)
qed

lemma round_f64_error:
  assumes "0 < b"
  obtains k where
    "round_f64 a b = (if 2 ^ (1024 + f64_unit) \<le> k then PosInf else Finite (int k))"
    "2 * (k * b) \<le> 2 * (a * 2 ^ f64_unit) + b * 2 ^ (bit_length (a * 2 ^ f64_unit div b) - 53)"
    "2 * (a * 2 ^ f64_unit) \<le> 2 * (k * b) + b * 2 ^ (bit_length (a * 2 ^ f64_unit div b) - 53)"
proof -
  obtain m where m: "round_f64 a b =
       (if 2 ^ (1024 + f64_unit) \<le> m * 2 ^ (bit_length (a * 2 ^ f64_unit div b) - 53) then PosInf
        else Finite (int (m * 2 ^ (bit_length (a * 2 ^ f64_unit div b) - 53))))"
    "2 * (m * (b * 2 ^ (bit_length (a * 2 ^ f64_unit div b) - 53)))
       \<le> 2 * (a * 2 ^ f64_unit) + b * 2 ^ (bit_length (a * 2 ^ f64_unit div b) - 53)"
    "2 * (a * 2 ^ f64_unit)
       \<le> 2 * (m * (b * 2 ^ (bit_length (a * 2 ^ f64_unit div b) - 53)))
           + b * 2 ^ (bit_length (a * 2 ^ f64_unit div b) - 53)"
    using assms by (rule round_f64_significand)
  have "m * 2 ^ (bit_length (a * 2 ^ f64_unit div b) - 53) * b
          = m * (b * 2 ^ (bit_length (a * 2 ^ f64_unit div b) - 53))"
    by simp
  with m show thesis
    using that [of "m * 2 ^ (bit_length (a * 2 ^ f64_unit div b) - 53)"] by (simp only:)
qed

lemma bit_length_scaled:
  assumes "0 < b" and "a < b * 2 ^ j"
  shows "bit_length (a * 2 ^ u div b) \<le> j + u"
proof (rule bit_length_le)
  have "a * 2 ^ u < b * 2 ^ j * 2 ^ u" using assms(2) by simp
  then have "a * 2 ^ u < 2 ^ (j + u) * b" by (simp add: power_add mult_ac)
  then show "a * 2 ^ u div b < 2 ^ (j + u)"
    using assms(1) by (simp add: less_mult_imp_div_less)
qed

lemma bit_length_eq:
  assumes "0 < k" and "2 ^ (k - 1) \<le> n" and "n < 2 ^ k"
  shows "bit_length n = k"
proof (rule antisym)
  show "bit_length n \<le> k" using assms(3) by (rule bit_length_le)
  show "k \<le> bit_length n"
  proof (rule ccontr)
    assume "\<not> k \<le> bit_length n"
    then have "bit_length n \<le> k - 1" by simp
    then have "(2::nat) ^ bit_length n \<le> 2 ^ (k - 1)" by (intro power_increasing) simp_all
    with bit_length_upper [of n] assms(2) show False by simp
  qed
qed

text \<open>A value of \<open>k \<ge> 53\<close> bits before the point: the floats around it are the multiples of
  \<open>2^(k-53)\<close>, and a multiple that is less than half a spacing away is the result.\<close>

lemma round_f64_large:
  assumes b: "0 < b" and k: "53 \<le> k"
    and lo: "b * 2 ^ (k - 1) \<le> a" and hi: "a < b * 2 ^ k"
    and near: "2 * a < 2 * (m * (b * 2 ^ (k - 53))) + b * 2 ^ (k - 53)"
      "2 * (m * (b * 2 ^ (k - 53))) < 2 * a + b * 2 ^ (k - 53)"
    and fin: "m * 2 ^ (k - 53) < 2 ^ 1024"
  shows "round_f64 a b = Finite (int (m * 2 ^ (k - 53) * 2 ^ f64_unit))"
proof -
  define u where "u = f64_unit"
  define n where "n = a * 2 ^ u div b"
  have "2 ^ (k - 1 + u) * b \<le> a * 2 ^ u"
    using lo by (simp add: power_add mult_ac)
  then have "2 ^ (k + u - 1) \<le> n"
    using b k by (simp add: n_def less_eq_div_iff_mult_less_eq)
  moreover have "n < 2 ^ (k + u)"
  proof -
    have "a * 2 ^ u < b * 2 ^ k * 2 ^ u" using hi by simp
    then have "a * 2 ^ u < 2 ^ (k + u) * b" by (simp add: power_add mult_ac)
    then show ?thesis using b by (simp add: n_def less_mult_imp_div_less)
  qed
  ultimately have bl: "bit_length n = k + u"
    using k by (intro bit_length_eq) simp_all
  have s: "bit_length n - 53 = (k - 53) + u" using k by (simp add: bl)
  define E where "E = b * 2 ^ (k - 53)"
  have E: "0 < E" using b by (simp add: E_def)
  have y: "b * 2 ^ (bit_length n - 53) = E * 2 ^ u" by (simp add: s E_def power_add)
  obtain m' where r: "round_f64 a b =
       (if 2 ^ (1024 + u) \<le> m' * 2 ^ (bit_length n - 53) then PosInf
        else Finite (int (m' * 2 ^ (bit_length n - 53))))"
    and up: "2 * (m' * (b * 2 ^ (bit_length n - 53))) \<le> 2 * (a * 2 ^ u) + b * 2 ^ (bit_length n - 53)"
    and dn: "2 * (a * 2 ^ u) \<le> 2 * (m' * (b * 2 ^ (bit_length n - 53))) + b * 2 ^ (bit_length n - 53)"
    unfolding n_def u_def using b by (rule round_f64_significand)
  have l1: "2 * (m' * (E * 2 ^ u)) = (2 * (m' * E)) * 2 ^ u" by simp
  have r1: "2 * (a * 2 ^ u) + E * 2 ^ u = (2 * a + E) * 2 ^ u" by (simp add: add_mult_distrib)
  have l2: "2 * (a * 2 ^ u) = (2 * a) * 2 ^ u" by simp
  have r2: "(2 * (m' * E)) * 2 ^ u + E * 2 ^ u = (2 * (m' * E) + E) * 2 ^ u"
    by (simp add: add_mult_distrib)
  from up have up': "(2 * (m' * E)) * 2 ^ u \<le> (2 * a + E) * 2 ^ u"
    unfolding y r1 l1 .
  from dn have dn': "(2 * a) * 2 ^ u \<le> (2 * (m' * E) + E) * 2 ^ u"
    unfolding y l1 r2 l2 .
  have pos: "0 < (2::nat) ^ u" by simp
  from up' pos have 1: "2 * (m' * E) \<le> 2 * a + E" by (simp only: mult_le_cancel2)
  from dn' pos have 2: "2 * a \<le> 2 * (m' * E) + E" by (simp only: mult_le_cancel2)
  from 1 near(1) have "2 * (m' * E) < 2 * (m * E) + 2 * E" by (simp add: E_def)
  then have "m' * E < (m + 1) * E" by simp
  then have a1: "m' < m + 1" by (simp only: mult_less_cancel2)
  from 2 near(2) have "2 * (m * E) < 2 * (m' * E) + 2 * E" by (simp add: E_def)
  then have "m * E < (m' + 1) * E" by simp
  then have "m < m' + 1" by (simp only: mult_less_cancel2)
  with a1 have eq: "m' = m" by simp
  have "m * 2 ^ (k - 53) * 2 ^ u < 2 ^ 1024 * 2 ^ u" using fin by simp
  then have "\<not> 2 ^ (1024 + u) \<le> m * 2 ^ (bit_length n - 53)"
    by (simp add: s power_add mult_ac)
  with r eq show ?thesis by (simp add: s power_add mult_ac u_def)
qed

text \<open>Below \<open>2^46\<close> the floats are less than a cent apart, so two amounts that differ by a
  cent or more round to different floats, in the same order.\<close>

lemma round_f64_cents_strict:
  assumes "a1 < a2" and "a2 < 100 * 2 ^ 46"
  obtains k1 k2 where "round_f64 a1 100 = Finite (int k1)" "round_f64 a2 100 = Finite (int k2)"
    "k1 < k2"
proof -
  define P :: nat where "P = 2 ^ (f64_unit - 7)"
  have U: "(2::nat) ^ f64_unit = 128 * P"
  proof -
    have "f64_unit = 7 + (f64_unit - 7)" by (simp add: f64_unit_def)
    then have "(2::nat) ^ f64_unit = 2 ^ 7 * 2 ^ (f64_unit - 7)" by (metis power_add)
    then show ?thesis by (simp add: P_def)
  qed
  have P: "0 < P" by (simp add: P_def)
  have spacing: "100 * 2 ^ (bit_length (a * 2 ^ f64_unit div 100) - 53) \<le> 100 * P"
    if "a < 100 * 2 ^ 46" for a :: nat
  proof -
    from that have "bit_length (a * 2 ^ f64_unit div 100) \<le> 46 + f64_unit"
      by (intro bit_length_scaled) simp_all
    then have "bit_length (a * 2 ^ f64_unit div 100) - 53 \<le> f64_unit - 7" by simp
    then have "(2::nat) ^ (bit_length (a * 2 ^ f64_unit div 100) - 53) \<le> 2 ^ (f64_unit - 7)"
      by (intro power_increasing) simp_all
    then show ?thesis by (simp add: P_def)
  qed
  from assms have a1: "a1 < 100 * 2 ^ 46" by simp
  obtain k1 where k1: "round_f64 a1 100 = (if 2 ^ (1024 + f64_unit) \<le> k1 then PosInf else Finite (int k1))"
    and up1: "2 * (k1 * 100) \<le> 2 * (a1 * 2 ^ f64_unit) + 100 * 2 ^ (bit_length (a1 * 2 ^ f64_unit div 100) - 53)"
    by (rule round_f64_error [of 100 a1]) simp_all
  obtain k2 where k2: "round_f64 a2 100 = (if 2 ^ (1024 + f64_unit) \<le> k2 then PosInf else Finite (int k2))"
    and up2: "2 * (k2 * 100) \<le> 2 * (a2 * 2 ^ f64_unit) + 100 * 2 ^ (bit_length (a2 * 2 ^ f64_unit div 100) - 53)"
    and lo2: "2 * (a2 * 2 ^ f64_unit) \<le> 2 * (k2 * 100) + 100 * 2 ^ (bit_length (a2 * 2 ^ f64_unit div 100) - 53)"
    by (rule round_f64_error [of 100 a2]) simp_all
  define x1 where "x1 = a1 * 2 ^ f64_unit"
  define x2 where "x2 = a2 * 2 ^ f64_unit"
  have "(a1 + 1) * 2 ^ f64_unit \<le> a2 * 2 ^ f64_unit"
    using assms(1) by (intro mult_le_mono1) simp
  then have gap: "x1 + 128 * P \<le> x2" by (simp add: x1_def x2_def U add_mult_distrib)
  have e1: "2 * (k1 * 100) \<le> 2 * x1 + 100 * P"
    using up1 spacing [OF a1] unfolding x1_def by linarith
  have e2: "2 * x2 \<le> 2 * (k2 * 100) + 100 * P"
    using lo2 spacing [OF assms(2)] unfolding x2_def by linarith
  have e3: "2 * (k2 * 100) \<le> 2 * x2 + 100 * P"
    using up2 spacing [OF assms(2)] unfolding x2_def by linarith
  from gap e1 e2 P have less: "k1 < k2" by linarith
  have "a2 * 2 ^ f64_unit < 100 * 2 ^ 46 * 2 ^ f64_unit" using assms(2) by simp
  then have "x2 < 100 * 2 ^ 46 * (128 * P)" by (simp add: x2_def U)
  with e3 have "k2 < 2 ^ 47 * (128 * P)" by simp
  also have "\<dots> = 2 ^ 47 * 2 ^ f64_unit" by (simp add: U)
  also have "\<dots> = 2 ^ (47 + f64_unit)" by (simp add: power_add)
  also have "\<dots> \<le> 2 ^ (1024 + f64_unit)" by (intro power_increasing) simp_all
  finally have fin2: "k2 < 2 ^ (1024 + f64_unit)" .
  with less have fin1: "k1 < 2 ^ (1024 + f64_unit)" by simp
  from k1 k2 fin1 fin2 less that show thesis by simp
qed


lemma amountRegex_nonempty: "amountRegex s \<Longrightarrow> s \<noteq> []"
  by (auto simp: amountRegex_def)

text \<open>Where the comparison is exact: amounts of the form \<open>digits.dd\<close> below \<open>2^46\<close>
  (about 70 trillion) are rounded to floats in the order of the amounts, so there a
  refund amount above the original amount is rejected with \<open>invalid_refund\<close>.\<close>

lemma refund_rejected_below_2_46:
  assumes "RefundRequest.TransactionID req \<noteq> []"
    and "amountRegex (RefundRequest.Amount req)"
    and "amountRegex originalAmount"
    and "amount_cents originalAmount < amount_cents (RefundRequest.Amount req)"
    and "amount_cents (RefundRequest.Amount req) < 100 * 2 ^ 46"
  shows "\<exists>e. ValidateRefundRequest rt req originalAmount = Some (NMI e)
           \<and> Code e = ''invalid_refund''"
proof -
  from assms(4) have "amount_cents (RefundRequest.Amount req) \<noteq> 0" by simp
  then have positive: "\<not> f64_le (ParseFloat rt (RefundRequest.Amount req)) (Finite 0)"
    by (simp add: parsed_amount_nonpositive_iff [OF assms(2)])
  obtain k1 k2 where "round_f64 (amount_cents originalAmount) 100 = Finite (int k1)"
    and "round_f64 (amount_cents (RefundRequest.Amount req)) 100 = Finite (int k2)"
    and "k1 < k2"
    using assms(4,5) by (rule round_f64_cents_strict)
  then have exceeds: "f64_gt (ParseFloat rt (RefundRequest.Amount req)) (ParseFloat rt originalAmount)"
    by (simp add: ParseFloat_amount assms(2,3))
  from assms(1) amountRegex_nonempty [OF assms(2)] amountRegex_nonempty [OF assms(3)]
    assms(2) positive exceeds
  show ?thesis
    by (simp add: ValidateRefundRequest_def Let_def NewNMIError_def ErrInvalidRefund_def)
qed

lemma refund_rejected_example:
  "\<exists>e. ValidateRefundRequest rt
          \<lparr>RefundRequest.APIKey = [], TransactionID = ''123'', Amount = ''10.01''\<rparr> ''10.00''
        = Some (NMI e) \<and> Code e = ''invalid_refund''"
proof -
  have h: "amountRegex ''10.01''" "amountRegex ''10.00''"
    "amount_cents ''10.00'' < amount_cents ''10.01''" "amount_cents ''10.01'' < 100 * 2 ^ 46"
    by (simp_all add: amountRegex_def digit_simps)
  from refund_rejected_below_2_46
    [of "\<lparr>RefundRequest.APIKey = [], TransactionID = ''123'', Amount = ''10.01''\<rparr>"
        "''10.00''" rt] h
  show ?thesis by simp
qed

text \<open>Both \<open>100000000000000000.01\<close> and \<open>100000000000000000.00\<close> are rounded to the float
  \<open>10^17\<close>.\<close>

lemma round_f64_1e17:
  "round_f64 10000000000000000001 100 = Finite (int (6250000000000000 * 2 ^ (57 - 53) * 2 ^ f64_unit))"
  "round_f64 10000000000000000000 100 = Finite (int (6250000000000000 * 2 ^ (57 - 53) * 2 ^ f64_unit))"
  by (rule round_f64_large; simp)+

text \<open>
  C8. The claim is what the code sets out to do (its comment reads: check if refund amount
  exceeds original amount), and the code misses it where \<open>float64\<close> loses the cents: the
  two amounts are compared after \<open>strconv.ParseFloat\<close>, and from \<open>2^46\<close> on two amounts
  a cent apart can be rounded to the same float. Here both amounts are well-formatted and
  positive, the refund amount is one cent above the known original amount, and the
  refund validation returns no error, for every runtime.
\<close>

theorem refund_exceeding_passes:
  "amountRegex ''100000000000000000.01''
   \<and> amountRegex ''100000000000000000.00''
   \<and> 0 < amount_cents ''100000000000000000.01''
   \<and> amount_cents ''100000000000000000.00'' < amount_cents ''100000000000000000.01''
   \<and> ValidateRefundRequest rt
        \<lparr>RefundRequest.APIKey = [], TransactionID = ''123'', Amount = ''100000000000000000.01''\<rparr>
        ''100000000000000000.00'' = None"
proof -
  have m: "amountRegex ''100000000000000000.01''" "amountRegex ''100000000000000000.00''"
    by (simp_all add: amountRegex_def is_digit_def)
  have c: "amount_cents ''100000000000000000.01'' = 10000000000000000001"
    "amount_cents ''100000000000000000.00'' = 10000000000000000000"
    by (simp_all add: digit_simps)
  have "\<not> f64_le (ParseFloat rt ''100000000000000000.01'') (Finite 0)"
    by (simp add: parsed_amount_nonpositive_iff m c)
  moreover have "\<not> f64_gt (ParseFloat rt ''100000000000000000.01'')
                     (ParseFloat rt ''100000000000000000.00'')"
    by (simp add: ParseFloat_amount m c round_f64_1e17)
  ultimately have "ValidateRefundRequest rt
        \<lparr>RefundRequest.APIKey = [], TransactionID = ''123'', Amount = ''100000000000000000.01''\<rparr>
        ''100000000000000000.00'' = None"
    using m by (simp add: ValidateRefundRequest_def Let_def)
  with m c show ?thesis by simp
qed

text \<open>\<open>ProcessRefund\<close> hands the amount of the looked-up transaction to the validator and
  returns the validator's error without sending the refund.\<close>

lemma ProcessRefund_validation:
  assumes "LookupTransaction gw
             \<lparr>LookupRequest.APIKey = RefundRequest.APIKey req,
              LookupRequest.TransactionID = RefundRequest.TransactionID req,
              Condition = [], TransactionType = [], ActionType = []\<rparr> w = (Inr lookupResp, w1)"
    and "ValidateRefundRequest rt req (LookupResponse.Amount lookupResp) = Some err"
  shows "ProcessRefund rt gw req w = (Inl err, w1)"
  using assms by (simp add: ProcessRefund_def)

end
